theory Spec2Isabelle
  imports Main
begin

section \<open>The multiplexer core of fbpad.c\<close>

subsection \<open>Configuration and collaborators\<close>

text \<open>
  fbpad.c is compiled against conf.h, which supplies the tag characters \<open>TAGS\<close>, the
  snapshot-eligible tags \<open>TAGS_SAVED\<close> and the commands to spawn. The terminal emulator
  (\<open>term_*\<close>), the pad (\<open>pad_*\<close>, \<open>fb_*\<close>), the snapshot cache (\<open>scr_*\<close>) and libssh2
  are separate translation units. Their answers are parameters of the model, collected in
  the record \<open>conf\<close>; their invocations are logged as events.
\<close>

record conf =
  TAGS :: string
  TAGS_SAVED :: string
  fb_rows :: int
  fb_cols :: int
  pad_crows :: int
  pad_ccols :: int
  pad_rows :: int
  scr_load :: "nat \<Rightarrow> int"
  term_colors :: int
  libssh2_init :: int
  socket_tcp6_b :: int
  socket_connect6 :: int
  libssh2_session_init :: bool
  libssh2_session_handshake :: int
  libssh2_userauth_password :: "string \<Rightarrow> int"

datatype prog = SHELL | MAIL | EDITOR

text \<open>
  One constructor per collaborator call made by fbpad.c. \<open>Hide\<close> and \<open>Show\<close> mark the
  entry of \<open>t_hide\<close> and \<open>t_show\<close> with their arguments, so that the order of the
  hide and show calls of a transition can be read off the log.
\<close>

datatype event =
    Hide nat int
  | Show nat int
  | TermHide nat
  | ScrSnap nat
  | TermSave nat
  | PadConf int int int int
  | TermLoad nat bool
  | ScrLoad nat
  | TermRedraw bool
  | TermShow nat
  | PadBorder int int
  | TermExec prog int
  | TermSend int
  | TermScreenshot int
  | TermColors
  | TermScrl int
  | ListTags

text \<open>
  Every logged call carries the values that \<open>ctag\<close>, \<open>ltag\<close> and \<open>tops\<close> had at the
  moment of the call.
\<close>

type_synonym call = "event \<times> nat \<times> nat \<times> nat list"

subsection \<open>The global state\<close>

text \<open>
  The static variables of fbpad.c, the descriptor of each terminal (0 when it has no
  session), the keyboard stream and the log. The arrays \<open>tops\<close>, \<open>split\<close> and
  \<open>term_fd\<close> are lists; the program indexes them with \<open>ctag\<close>, a tag below
  \<open>NTAGS\<close>, or a slot below \<open>NTERMS\<close>. An index out of range has no defined
  behaviour in C and no specified value here.
\<close>

record mux =
  term_fd :: "int list"
  tops :: "nat list"
  split :: "int list"
  ctag :: nat
  ltag :: nat
  exitit :: int
  hidden :: int
  locked :: int
  taglock :: int
  pass :: "char list"
  passlen :: nat
  cmdmode :: int
  barstat :: int
  nolock :: int
  stdin :: "char list"
  trace :: "call list"

definition NTAGS :: "conf \<Rightarrow> nat" where
  "NTAGS c = length (TAGS c)"

definition NTERMS :: "conf \<Rightarrow> nat" where
  "NTERMS c = NTAGS c * 2"

definition TERMOPEN :: "mux \<Rightarrow> nat \<Rightarrow> bool" where
  "TERMOPEN s i = (term_fd s ! i \<noteq> 0)"

text \<open>
  \<open>strchr(str, ch)\<close> as an index: the position of the first occurrence of the byte
  \<open>(char) ch\<close> in the string including its terminating NUL, or \<open>None\<close> for NULL.
\<close>

fun index_of :: "char \<Rightarrow> char list \<Rightarrow> nat option" where
  "index_of ch [] = None"
| "index_of ch (x # xs) =
     (if x = ch then Some 0 else map_option Suc (index_of ch xs))"

definition strchr :: "string \<Rightarrow> int \<Rightarrow> nat option" where
  "strchr str ch = index_of (char_of ch) (str @ [CHR 0x00])"

definition TERMSNAP :: "conf \<Rightarrow> nat \<Rightarrow> bool" where
  "TERMSNAP c i = (strchr (TAGS_SAVED c) (of_char (TAGS c ! (i mod NTAGS c))) \<noteq> None)"

definition BRWID :: int where
  "BRWID = 2"

definition BRCLR :: int where
  "BRCLR = 0xff0000"

definition globals :: "mux \<Rightarrow> nat \<times> nat \<times> nat list" where
  "globals s = (ctag s, ltag s, tops s)"

definition emit :: "event \<Rightarrow> mux \<Rightarrow> mux" where
  "emit e s = s\<lparr>trace := trace s @ [(e, globals s)]\<rparr>"

definition events :: "mux \<Rightarrow> event list" where
  "events s = map fst (trace s)"

text \<open>C's integer division truncates towards zero.\<close>

definition cdiv :: "int \<Rightarrow> int \<Rightarrow> int" where
  "cdiv a b = sgn a * sgn b * (\<bar>a\<bar> div \<bar>b\<bar>)"

subsection \<open>Slot addressing\<close>

definition cterm :: "conf \<Rightarrow> mux \<Rightarrow> nat" where
  "cterm c s = tops s ! ctag s * NTAGS c + ctag s"

definition tterm :: "conf \<Rightarrow> mux \<Rightarrow> nat \<Rightarrow> nat" where
  "tterm c s n = tops s ! n * NTAGS c + n"

definition aterm :: "conf \<Rightarrow> nat \<Rightarrow> nat" where
  "aterm c n = (if n < NTAGS c then n + NTAGS c else n - NTAGS c)"

definition tmain :: "conf \<Rightarrow> mux \<Rightarrow> bool" where
  "tmain c s = TERMOPEN s (cterm c s)"

subsection \<open>Layout, hide and show\<close>

definition t_conf :: "conf \<Rightarrow> nat \<Rightarrow> mux \<Rightarrow> mux" where
  "t_conf c idx s =
    (let h1 = cdiv (cdiv (fb_rows c) 2) (pad_crows c) * pad_crows c;
         h2 = fb_rows c - h1 - 4 * BRWID;
         w1 = cdiv (cdiv (fb_cols c) 2) (pad_ccols c) * pad_ccols c;
         w2 = fb_cols c - w1 - 4 * BRWID;
         tag = idx mod NTAGS c;
         top = idx < NTAGS c;
         s1 = (if split s ! tag = 0
               then emit (PadConf 0 0 (fb_rows c) (fb_cols c)) s else s);
         s2 = (if split s1 ! tag = 1
               then emit (PadConf (if top then BRWID else h1 + 3 * BRWID) BRWID
                                  (if top then h1 else h2) (fb_cols c - 2 * BRWID)) s1
               else s1)
     in if split s2 ! tag = 2
        then emit (PadConf BRWID (if top then BRWID else w1 + 3 * BRWID)
                           (fb_rows c - 2 * BRWID) (if top then w1 else w2)) s2
        else s2)"

definition t_hide :: "conf \<Rightarrow> nat \<Rightarrow> int \<Rightarrow> mux \<Rightarrow> mux" where
  "t_hide c idx save s =
    (let s0 = emit (Hide idx save) s;
         s1 = (if save \<noteq> 0 \<and> TERMOPEN s0 idx then emit (TermHide idx) s0 else s0);
         s2 = (if save \<noteq> 0 \<and> TERMOPEN s1 idx \<and> TERMSNAP c idx
               then emit (ScrSnap idx) s1 else s1)
     in emit (TermSave idx) s2)"

text \<open>
  \<open>show=0\<close> (hidden), \<open>show=1\<close> (visible), \<open>show=2\<close> (load), \<open>show=3\<close> (redraw).
  The disjunction \<open>!TERMOPEN(idx) || !TERMSNAP(idx) || scr_load(idx)\<close> is evaluated
  left to right and stops at the first true operand, so \<open>scr_load\<close> is called only
  for an open, snapshot-eligible slot.
\<close>

definition t_show :: "conf \<Rightarrow> nat \<Rightarrow> int \<Rightarrow> mux \<Rightarrow> int \<times> mux" where
  "t_show c idx show s =
    (let s0 = emit (Show idx show) s;
         s1 = t_conf c idx s0;
         s2 = emit (TermLoad idx (show > 0)) s1;
         (show', s3) =
           (if show = 2 then
              (if \<not> TERMOPEN s2 idx then (show + 1, s2)
               else if \<not> TERMSNAP c idx then (show + 1, s2)
               else (if scr_load c idx \<noteq> 0 then show + 1 else show,
                     emit (ScrLoad idx) s2))
            else (show, s2));
         s4 = (if show' > 0 then emit (TermRedraw (show' = 3)) s3 else s3);
         s5 = (if (show' = 2 \<or> show' = 3) \<and> TERMOPEN s4 idx
               then emit (TermShow idx) s4 else s4)
     in (show', s5))"

definition t_hideshow :: "conf \<Rightarrow> nat \<Rightarrow> int \<Rightarrow> nat \<Rightarrow> int \<Rightarrow> mux \<Rightarrow> int \<times> mux" where
  "t_hideshow c oidx save nidx show s =
    (let otag = oidx mod NTAGS c;
         ntag = nidx mod NTAGS c;
         s1 = t_hide c oidx save s;
         s2 = (if show \<noteq> 0 \<and> split s1 ! otag \<noteq> 0 \<and> otag = ntag
               then emit (PadBorder 0 BRWID) s1 else s1);
         (ret, s3) = t_show c nidx show s2;
         s4 = (if show \<noteq> 0 \<and> split s3 ! ntag \<noteq> 0
               then emit (PadBorder BRCLR BRWID) s3 else s3)
     in (ret, s4))"

subsection \<open>Switching and splitting\<close>

definition t_set :: "conf \<Rightarrow> nat \<Rightarrow> mux \<Rightarrow> mux" where
  "t_set c n s =
    (if cterm c s = n \<or> cmdmode s \<noteq> 0 then s
     else if taglock s \<noteq> 0 \<and> ctag s \<noteq> n mod NTAGS c then s
     else
       (let s1 = (if ctag s \<noteq> n mod NTAGS c then s\<lparr>ltag := ctag s\<rparr> else s);
            s2 = (if ctag s1 = n mod NTAGS c then
                    (if split s1 ! (n mod NTAGS c) \<noteq> 0
                     then snd (t_hideshow c (cterm c s1) 0 n 1 s1)
                     else snd (t_hideshow c (cterm c s1) 1 n 2 s1))
                  else
                    (let (draw, s') = t_hideshow c (cterm c s1) 1 n 2 s1
                     in if split s' ! (n mod NTAGS c) \<noteq> 0
                        then snd (t_hideshow c (aterm c n) 0 n 1
                               (snd (t_hideshow c n 0 (aterm c n)
                                  (if draw = 2 then 1 else 2) s')))
                        else s'));
            s3 = s2\<lparr>ctag := n mod NTAGS c\<rparr>
        in s3\<lparr>tops := (tops s3)[ctag s3 := n div NTAGS c]\<rparr>))"

definition t_split :: "conf \<Rightarrow> int \<Rightarrow> mux \<Rightarrow> mux" where
  "t_split c n s =
    (let s1 = s\<lparr>split := (split s)[ctag s := n]\<rparr>;
         s2 = snd (t_hideshow c (cterm c s1) 0 (aterm c (cterm c s1)) 3 s1)
     in snd (t_hideshow c (aterm c (cterm c s2)) 1 (cterm c s2) 3 s2))"

definition peepterm :: "conf \<Rightarrow> nat \<Rightarrow> mux \<Rightarrow> mux" where
  "peepterm c termid s =
    (let visible = (if hidden s = 0 \<and> ctag s = termid mod NTAGS c \<and> split s ! ctag s \<noteq> 0
                    then 1 else 0)
     in if termid \<noteq> cterm c s then snd (t_hideshow c (cterm c s) 0 termid visible s)
        else s)"

definition peepback :: "conf \<Rightarrow> nat \<Rightarrow> mux \<Rightarrow> mux" where
  "peepback c termid s =
    (if termid \<noteq> cterm c s
     then snd (t_hideshow c termid 0 (cterm c s) (if hidden s = 0 then 1 else 0) s)
     else s)"

subsection \<open>The status bar\<close>

text \<open>
  \<open>listtags\<close> paints the bar with a sequence of \<open>pad_put\<close> calls; the log records
  the repaint as one event. \<open>STAT_RET\<close> is the macro of the same name.
\<close>

definition listtags :: "mux \<Rightarrow> mux" where
  "listtags s = emit ListTags s"

definition STAT_RET :: "mux \<Rightarrow> mux" where
  "STAT_RET s = (if barstat s > 0 then listtags s else s)"

definition togglebar :: "mux \<Rightarrow> mux" where
  "togglebar s =
    (let s1 = s\<lparr>barstat := barstat s * (- 1)\<rparr>
     in if barstat s1 < 0 then emit (TermRedraw True) s1 else listtags s1)"

definition t_exec :: "conf \<Rightarrow> prog \<Rightarrow> int \<Rightarrow> mux \<Rightarrow> mux" where
  "t_exec c args swsig s = (if \<not> tmain c s then emit (TermExec args swsig) s else s)"

subsection \<open>The next open terminal\<close>

text \<open>
  The loop of \<open>nterm\<close> walks the slots cyclically from the one after \<open>cterm()\<close>.
  Not returning is the value \<open>None\<close>.
\<close>

partial_function (option) nterm_loop :: "conf \<Rightarrow> mux \<Rightarrow> nat \<Rightarrow> nat option" where
  "nterm_loop c s n =
    (if n \<noteq> cterm c s
     then (if TERMOPEN s n then Some n else nterm_loop c s ((n + 1) mod NTERMS c))
     else Some n)"

definition nterm :: "conf \<Rightarrow> mux \<Rightarrow> nat option" where
  "nterm c s = nterm_loop c s ((cterm c s + 1) mod NTERMS c)"

subsection \<open>Keyboard input and the lock\<close>

text \<open>
  \<open>readchar\<close> takes one byte from the keyboard stream and returns it as an
  \<open>unsigned char\<close>, or \<open>-1\<close> when nothing can be read.
\<close>

definition readchar :: "mux \<Rightarrow> int \<times> mux" where
  "readchar s =
    (case stdin s of [] \<Rightarrow> (- 1, s) | b # bs \<Rightarrow> (of_char b, s\<lparr>stdin := bs\<rparr>))"

text \<open>\<open>isprint\<close> of the C locale (fbpad.c never calls \<open>setlocale\<close>).\<close>

definition isprint :: "int \<Rightarrow> bool" where
  "isprint ch = (32 \<le> ch \<and> ch \<le> 126)"

definition ESC :: int where
  "ESC = 27"

definition CTRLKEY :: "int \<Rightarrow> int" where
  "CTRLKEY x = x - 96"

definition sizeof_pass :: nat where
  "sizeof_pass = 1024"

text \<open>The bytes of a C string up to its first NUL.\<close>

definition cstring :: "char list \<Rightarrow> string" where
  "cstring buf = takeWhile (\<lambda>ch. ch \<noteq> CHR 0x00) buf"

text \<open>
  \<open>chkpass\<close>: \<open>ret\<close> starts at \<open>-1\<close> and is overwritten only by the result of
  \<open>libssh2_userauth_password\<close>, reached when every earlier step succeeded. The
  \<open>goto\<close> chain releases resources and joins the final test of \<open>ret\<close>; only a
  failing \<open>libssh2_init\<close> returns directly.
\<close>

definition chkpass :: "conf \<Rightarrow> mux \<Rightarrow> int" where
  "chkpass c s =
    (let ret = - 1
     in if libssh2_init c \<noteq> 0 then ret
        else
          (let ret' =
             (if socket_tcp6_b c < 0 then ret
              else if socket_connect6 c \<noteq> 0 then ret
              else if \<not> libssh2_session_init c then ret
              else if libssh2_session_handshake c \<noteq> 0 then ret
              else libssh2_userauth_password c (cstring (pass s)))
           in if ret' \<noteq> 0 then (if ret' < 0 then ret' else 0) else 1))"

definition directkey :: "conf \<Rightarrow> mux \<Rightarrow> mux option" where
  "directkey c s0 =
    (let (ch, s) = readchar s0
     in if nolock s = 0 \<and> locked s \<noteq> 0 then
          (if ch = 13 then
             (let s1 = s\<lparr>pass := (pass s)[passlen s := CHR 0x00]\<rparr>;
                  s2 = (if chkpass c s1 > 0 then s1\<lparr>locked := 0\<rparr> else s1)
              in Some (s2\<lparr>passlen := 0\<rparr>))
           else if isprint ch \<and> passlen s + 1 < sizeof_pass then
             Some (s\<lparr>pass := (pass s)[passlen s := char_of ch], passlen := passlen s + 1\<rparr>)
           else Some s)
        else if ch = ESC then
          (let (k, s) = readchar s
           in if k = 99 then Some (STAT_RET (t_exec c SHELL 0 s))
              else if k = 59 then Some (STAT_RET (t_exec c SHELL 1 s))
              else if k = 109 then Some (t_exec c MAIL 0 s)
              else if k = 101 then Some (t_exec c EDITOR 0 s)
              else if k = 106 \<or> k = 107 then Some (t_set c (aterm c (cterm c s)) s)
              else if k = 111 then Some (STAT_RET (t_set c (tterm c s (ltag s)) s))
              else if k = 112 then Some (togglebar s)
              else if k = 9 then
                (case nterm c s of
                   None \<Rightarrow> None
                 | Some n \<Rightarrow> Some (if n \<noteq> cterm c s then t_set c n s else s))
              else if k = CTRLKEY 113 then Some (s\<lparr>exitit := 1\<rparr>)
              else if k = 115 then Some (emit (TermScreenshot 0) s)
              else if k = CTRLKEY 115 then Some (emit (TermScreenshot 1) s)
              else if k = 121 then Some (STAT_RET (emit (TermRedraw True) s))
              else if k = CTRLKEY 101 then
                (let s1 = emit TermColors s
                 in Some (STAT_RET (if term_colors c = 0 then emit (TermRedraw True) s1 else s1)))
              else if k = CTRLKEY 108 then Some (s\<lparr>locked := 1, passlen := 0\<rparr>)
              else if k = CTRLKEY 111 then Some (s\<lparr>taglock := 1 - taglock s\<rparr>)
              else if k = 44 then Some (emit (TermScrl (cdiv (pad_rows c) 2)) s)
              else if k = 46 then Some (emit (TermScrl (cdiv (- pad_rows c) 2)) s)
              else if k = 61 then Some (t_split c (if split s ! ctag s = 1 then 2 else 1) s)
              else if k = 45 then Some (STAT_RET (t_split c 0 s))
              else
                (case strchr (TAGS c) k of
                   Some i \<Rightarrow> Some (STAT_RET (t_set c (tterm c s i) s))
                 | None \<Rightarrow>
                     (let s1 = (if tmain c s then emit (TermSend ESC) s else s)
                      in Some (if k \<noteq> - 1 \<and> tmain c s1 then emit (TermSend k) s1 else s1))))
        else Some (if ch \<noteq> - 1 \<and> tmain c s then emit (TermSend ch) s else s))"

section \<open>The glyph store of font.c\<close>

record font =
  font_rows :: int
  font_cols :: int
  font_n :: int
  font_glyphs :: "int list"
  font_data :: "char list"

text \<open>
  \<open>find_glyph\<close>: \<open>l\<close> starts at 0 and \<open>h\<close> at \<open>font->n\<close>, and neither leaves the
  range between them, so both are natural numbers here (a negative \<open>n\<close> gives the
  empty range). The sum \<open>l + h\<close> stays below twice \<open>n\<close>.
\<close>

function find_glyph_loop :: "font \<Rightarrow> int \<Rightarrow> nat \<Rightarrow> nat \<Rightarrow> int" where
  "find_glyph_loop f c l h =
    (if l < h then
       (let m = (l + h) div 2
        in if font_glyphs f ! m = c then int m
           else if c < font_glyphs f ! m then find_glyph_loop f c l m
           else find_glyph_loop f c (m + 1) h)
     else - 1)"
  by pat_completeness auto
termination
  by (relation "measure (\<lambda>(f, c, l, h). h - l)") auto

definition find_glyph :: "font \<Rightarrow> int \<Rightarrow> int" where
  "find_glyph f c = find_glyph_loop f c 0 (nat (font_n f))"

text \<open>\<open>memcpy(dst, src, len)\<close> into a destination of at least \<open>len\<close> bytes.\<close>

definition memcpy :: "char list \<Rightarrow> char list \<Rightarrow> nat \<Rightarrow> char list" where
  "memcpy dst src len = take len src @ drop len dst"

definition font_bitmap :: "font \<Rightarrow> char list \<Rightarrow> int \<Rightarrow> int \<times> char list" where
  "font_bitmap f dst c =
    (let i = find_glyph f c;
         len = font_rows f * font_cols f
     in if i < 0 then (1, dst)
        else (0, memcpy dst (drop (nat (i * len)) (font_data f)) (nat len)))"

subsection \<open>Opening a glyph resource\<close>

text \<open>
  A 32-bit \<open>int\<close> stored in four bytes, least significant first, and the conversion of
  an integer to \<open>int\<close> by wrap-around.
\<close>

definition to_int32 :: "int \<Rightarrow> int" where
  "to_int32 x = (x + 2 ^ 31) mod 2 ^ 32 - 2 ^ 31"

fun le_bytes :: "char list \<Rightarrow> int" where
  "le_bytes [] = 0"
| "le_bytes (b # bs) = of_char b + 256 * le_bytes bs"

definition le32 :: "char list \<Rightarrow> int" where
  "le32 bs = to_int32 (le_bytes (take 4 bs))"

fun ints_of :: "nat \<Rightarrow> char list \<Rightarrow> int list" where
  "ints_of 0 bs = []"
| "ints_of (Suc k) bs = le32 bs # ints_of k (drop 4 bs)"






section \<open>Reading the log\<close>

text \<open>
  The calls a transition from \<open>s\<close> to \<open>s'\<close> has added to the log, with and without
  the values of the globals seen by each call.
\<close>

definition new_calls :: "mux \<Rightarrow> mux \<Rightarrow> call list" where
  "new_calls s s' = drop (length (trace s)) (trace s')"

definition new_events :: "mux \<Rightarrow> mux \<Rightarrow> event list" where
  "new_events s s' = map fst (new_calls s s')"

text \<open>The entries of \<open>t_hide\<close> and \<open>t_show\<close> among the events.\<close>

fun is_hs :: "event \<Rightarrow> bool" where
  "is_hs (Hide i v) = True"
| "is_hs (Show i v) = True"
| "is_hs e = False"

definition hs_calls :: "event list \<Rightarrow> event list" where
  "hs_calls es = filter is_hs es"

text \<open>
  The session that owns the render context after a sequence of calls is the one of the
  last \<open>term_load\<close>, together with the visibility flag it was loaded with.
\<close>

fun owner :: "event list \<Rightarrow> (nat \<times> bool) option" where
  "owner [] = None"
| "owner (TermLoad i v # es) = (case owner es of None \<Rightarrow> Some (i, v) | Some x \<Rightarrow> Some x)"
| "owner (e # es) = owner es"

text \<open>
  The pixels of a region set up by \<open>pad_conf(row, col, rows, cols)\<close>, and the
  \<open>pad_conf\<close> calls among the events.
\<close>

fun in_rect :: "int \<times> int \<Rightarrow> event \<Rightarrow> bool" where
  "in_rect (y, x) (PadConf r l h w) = (r \<le> y \<and> y < r + h \<and> l \<le> x \<and> x < l + w)"
| "in_rect p e = False"

fun is_conf :: "event \<Rightarrow> bool" where
  "is_conf (PadConf r l h w) = True"
| "is_conf e = False"

definition pad_confs :: "event list \<Rightarrow> event list" where
  "pad_confs es = filter is_conf es"

section \<open>The password and the outcomes of authentication\<close>

text \<open>
  The password typed so far is the first \<open>passlen\<close> bytes of \<open>pass\<close>. The
  authentication has three outcomes: a step before the password check fails, the check
  accepts the password (\<open>libssh2_userauth_password\<close> returns 0), or it does not.
\<close>

definition password_buffer :: "mux \<Rightarrow> string" where
  "password_buffer s = take (passlen s) (pass s)"

definition primitive_failure :: "conf \<Rightarrow> bool" where
  "primitive_failure c =
    (libssh2_init c \<noteq> 0 \<or> socket_tcp6_b c < 0 \<or> socket_connect6 c \<noteq> 0
     \<or> \<not> libssh2_session_init c \<or> libssh2_session_handshake c \<noteq> 0)"

datatype outcome = Verified | Rejected | Failure

definition auth_outcome :: "conf \<Rightarrow> string \<Rightarrow> outcome" where
  "auth_outcome c pw =
    (if primitive_failure c then Failure
     else if libssh2_userauth_password c pw = 0 then Verified else Rejected)"

section \<open>Glyph stores\<close>

text \<open>
  A glyph store holds \<open>n\<close> codes in strictly ascending order and \<open>n\<close> bitmaps of
  \<open>rows * cols\<close> bytes each. The byte counts of both arrays fit an \<open>int\<close>, as they do
  for every store that \<open>font_open\<close> builds, whose reads take an \<open>int\<close> length.
  \<open>glyph_bitmap f i\<close> is the stored bitmap of the glyph at index \<open>i\<close>.
\<close>

definition glyph_store :: "font \<Rightarrow> bool" where
  "glyph_store f =
    (font_n f = int (length (font_glyphs f)) \<and> sorted_wrt (<) (font_glyphs f)
     \<and> 0 \<le> font_rows f \<and> 0 \<le> font_cols f
     \<and> int (length (font_data f)) = font_n f * font_rows f * font_cols f
     \<and> font_n f * 4 < 2 ^ 31 \<and> font_n f * font_rows f * font_cols f < 2 ^ 31)"

definition glyph_bitmap :: "font \<Rightarrow> nat \<Rightarrow> char list" where
  "glyph_bitmap f i =
    take (nat (font_rows f * font_cols f)) (drop (i * nat (font_rows f * font_cols f)) (font_data f))"

section \<open>The header of a glyph resource\<close>






section \<open>Example configuration and states\<close>

text \<open>
  Two tags \<open>a\<close> and \<open>b\<close>, of which \<open>a\<close> keeps snapshots, on a 1024x768 display with
  8x16 cells; slots 0 and 2 are the panes of tag \<open>a\<close>, slots 1 and 3 those of tag
  \<open>b\<close>. In \<open>ex_mux\<close> slots 0 and 3 hold sessions and tag \<open>a\<close> is current with its
  first pane active. In \<open>ex_mux_b\<close> slots 2 and 3 hold sessions, tag \<open>a\<close> is split
  horizontally, and tag \<open>b\<close> is current with its second pane active.
\<close>

definition ex_conf :: conf where
  "ex_conf = \<lparr>TAGS = ''ab'', TAGS_SAVED = ''a'', fb_rows = 768, fb_cols = 1024,
     pad_crows = 16, pad_ccols = 8, pad_rows = 48, scr_load = (\<lambda>i. 0), term_colors = 0,
     libssh2_init = 0, socket_tcp6_b = 5, socket_connect6 = 0,
     libssh2_session_init = True, libssh2_session_handshake = 0,
     libssh2_userauth_password = (\<lambda>pw. if pw = ''pw'' then 0 else - 18)\<rparr>"

definition ex_mux :: mux where
  "ex_mux = \<lparr>term_fd = [3, 0, 0, 4], tops = [0, 0], split = [0, 0], ctag = 0, ltag = 1,
     exitit = 0, hidden = 0, locked = 0, taglock = 0, pass = replicate 1024 (CHR 0x00),
     passlen = 0, cmdmode = 0, barstat = 1, nolock = 0, stdin = [], trace = []\<rparr>"

definition ex_mux_b :: mux where
  "ex_mux_b = \<lparr>term_fd = [0, 0, 5, 4], tops = [0, 1], split = [1, 0], ctag = 1, ltag = 0,
     exitit = 0, hidden = 0, locked = 0, taglock = 0, pass = replicate 1024 (CHR 0x00),
     passlen = 0, cmdmode = 0, barstat = 1, nolock = 0, stdin = [], trace = []\<rparr>"

text \<open>The locked state after the two bytes \<open>pw\<close> have been typed.\<close>

definition ex_typed :: mux where
  "ex_typed = ex_mux\<lparr>locked := 1, passlen := 2,
     pass := CHR ''p'' # CHR ''w'' # replicate 1022 (CHR 0x00)\<rparr>"

text \<open>A store of three glyphs of two bytes each, and a store without glyphs.\<close>

definition ex_font :: font where
  "ex_font = \<lparr>font_rows = 2, font_cols = 1, font_n = 3, font_glyphs = [65, 66, 97],
     font_data = ''AaBbCc''\<rparr>"

definition ex_font_empty :: font where
  "ex_font_empty = \<lparr>font_rows = 16, font_cols = 8, font_n = 0, font_glyphs = [],
     font_data = []\<rparr>"



section \<open>The log of a transition\<close>

text \<open>
  \<open>log es s\<close> appends the calls \<open>es\<close> to the log of \<open>s\<close>, all made while the globals
  have their values of \<open>s\<close>. The functions \<open>*_events\<close> give the calls of \<open>t_conf\<close>,
  \<open>t_hide\<close>, \<open>t_show\<close> and \<open>t_hideshow\<close> as lists; the lemmas \<open>*_log\<close> prove that the
  embedded functions log exactly these calls and change nothing else.
\<close>

definition log :: "event list \<Rightarrow> mux \<Rightarrow> mux" where
  "log es s = s\<lparr>trace := trace s @ map (\<lambda>e. (e, globals s)) es\<rparr>"

definition conf_events :: "conf \<Rightarrow> int \<Rightarrow> nat \<Rightarrow> event list" where
  "conf_events c m idx =
    (let h1 = cdiv (cdiv (fb_rows c) 2) (pad_crows c) * pad_crows c;
         h2 = fb_rows c - h1 - 4 * BRWID;
         w1 = cdiv (cdiv (fb_cols c) 2) (pad_ccols c) * pad_ccols c;
         w2 = fb_cols c - w1 - 4 * BRWID;
         top = idx < NTAGS c
     in if m = 0 then [PadConf 0 0 (fb_rows c) (fb_cols c)]
        else if m = 1 then [PadConf (if top then BRWID else h1 + 3 * BRWID) BRWID
                                  (if top then h1 else h2) (fb_cols c - 2 * BRWID)]
        else if m = 2 then [PadConf BRWID (if top then BRWID else w1 + 3 * BRWID)
                           (fb_rows c - 2 * BRWID) (if top then w1 else w2)]
        else [])"

definition hide_events :: "conf \<Rightarrow> mux \<Rightarrow> nat \<Rightarrow> int \<Rightarrow> event list" where
  "hide_events c s idx save =
     [Hide idx save]
     @ (if save \<noteq> 0 \<and> TERMOPEN s idx then [TermHide idx] else [])
     @ (if save \<noteq> 0 \<and> TERMOPEN s idx \<and> TERMSNAP c idx then [ScrSnap idx] else [])
     @ [TermSave idx]"

definition show_ret :: "conf \<Rightarrow> mux \<Rightarrow> nat \<Rightarrow> int \<Rightarrow> int" where
  "show_ret c s idx show =
     (if show = 2 then (if TERMOPEN s idx \<and> TERMSNAP c idx \<and> scr_load c idx = 0 then 2 else 3)
      else show)"

definition show_events :: "conf \<Rightarrow> mux \<Rightarrow> nat \<Rightarrow> int \<Rightarrow> event list" where
  "show_events c s idx show =
     [Show idx show] @ conf_events c (split s ! (idx mod NTAGS c)) idx
     @ [TermLoad idx (show > 0)]
     @ (if show = 2 \<and> TERMOPEN s idx \<and> TERMSNAP c idx then [ScrLoad idx] else [])
     @ (if show_ret c s idx show > 0 then [TermRedraw (show_ret c s idx show = 3)] else [])
     @ (if (show_ret c s idx show = 2 \<or> show_ret c s idx show = 3) \<and> TERMOPEN s idx
        then [TermShow idx] else [])"

definition hideshow_events :: "conf \<Rightarrow> mux \<Rightarrow> nat \<Rightarrow> int \<Rightarrow> nat \<Rightarrow> int \<Rightarrow> event list" where
  "hideshow_events c s oidx save nidx show =
     hide_events c s oidx save
     @ (if show \<noteq> 0 \<and> split s ! (oidx mod NTAGS c) \<noteq> 0 \<and> oidx mod NTAGS c = nidx mod NTAGS c
        then [PadBorder 0 BRWID] else [])
     @ show_events c s nidx show
     @ (if show \<noteq> 0 \<and> split s ! (nidx mod NTAGS c) \<noteq> 0 then [PadBorder BRCLR BRWID] else [])"

lemma log_Nil [simp]: "log [] s = s"
  by (simp add: log_def)

lemma globals_log [simp]: "globals (log es s) = globals s"
  by (simp add: log_def globals_def)

lemma log_log [simp]: "log es (log es' s) = log (es' @ es) s"
  by (simp add: log_def globals_def)

lemma emit_log: "emit e s = log [e] s"
  by (simp add: emit_def log_def)

lemma log_fields [simp]:
  "term_fd (log es s) = term_fd s" "tops (log es s) = tops s" "split (log es s) = split s"
  "ctag (log es s) = ctag s" "ltag (log es s) = ltag s" "exitit (log es s) = exitit s"
  "hidden (log es s) = hidden s" "locked (log es s) = locked s"
  "taglock (log es s) = taglock s" "pass (log es s) = pass s"
  "passlen (log es s) = passlen s" "cmdmode (log es s) = cmdmode s"
  "barstat (log es s) = barstat s" "nolock (log es s) = nolock s"
  "stdin (log es s) = stdin s"
  by (simp_all add: log_def)

lemma trace_log [simp]: "trace (log es s) = trace s @ map (\<lambda>e. (e, globals s)) es"
  by (simp add: log_def)

lemma events_log [simp]: "events (log es s) = events s @ es"
  by (simp add: events_def comp_def)

lemma TERMOPEN_log [simp]: "TERMOPEN (log es s) i = TERMOPEN s i"
  by (simp add: TERMOPEN_def)

lemma cterm_log [simp]: "cterm c (log es s) = cterm c s"
  by (simp add: cterm_def)

lemma t_conf_log: "t_conf c idx s = log (conf_events c (split s ! (idx mod NTAGS c)) idx) s"
  by (simp add: t_conf_def conf_events_def Let_def emit_log)

lemma t_hide_log: "t_hide c idx save s = log (hide_events c s idx save) s"
  by (simp add: t_hide_def hide_events_def Let_def emit_log)

lemma t_show_log:
  "t_show c idx show s = (show_ret c s idx show, log (show_events c s idx show) s)"
  by (simp add: t_show_def show_ret_def show_events_def Let_def emit_log t_conf_log)

lemma show_events_log [simp]: "show_events c (log es s) idx show = show_events c s idx show"
  by (simp add: show_events_def show_ret_def)

lemma show_ret_log [simp]: "show_ret c (log es s) idx show = show_ret c s idx show"
  by (simp add: show_ret_def)

lemma hide_events_log [simp]: "hide_events c (log es s) idx save = hide_events c s idx save"
  by (simp add: hide_events_def)

lemma t_hideshow_log:
  "t_hideshow c oidx save nidx show s =
     (show_ret c s nidx show, log (hideshow_events c s oidx save nidx show) s)"
  by (auto simp add: t_hideshow_def hideshow_events_def Let_def emit_log t_hide_log t_show_log)

lemma hideshow_events_log [simp]:
  "hideshow_events c (log es s) oidx save nidx show = hideshow_events c s oidx save nidx show"
  by (simp add: hideshow_events_def)

lemma new_calls_log [simp]: "new_calls s (log es s) = map (\<lambda>e. (e, globals s)) es"
  by (simp add: new_calls_def)

lemma new_events_log [simp]: "new_events s (log es s) = es"
  by (simp add: new_events_def comp_def)

lemma new_calls_same [simp]: "new_calls s s = []"
  by (simp add: new_calls_def)

lemma log_untrace [simp]: "(log es s)\<lparr>trace := trace s\<rparr> = s"
  by (simp add: log_def)

lemma new_events_log_log [simp]: "new_events (log es s) (log (es @ es') s) = es'"
  by (simp add: new_events_def new_calls_def comp_def)

lemma new_calls_upd [simp]:
  "new_calls s (s'\<lparr>ctag := a\<rparr>) = new_calls s s'"
  "new_calls s (s'\<lparr>tops := b\<rparr>) = new_calls s s'"
  by (simp_all add: new_calls_def)

lemma new_calls_log_ltag [simp]:
  "new_calls s (log es (s\<lparr>ltag := v\<rparr>)) = map (\<lambda>e. (e, ctag s, v, tops s)) es"
  by (simp add: new_calls_def globals_def)

lemma ltag_frame [simp]:
  "TERMOPEN (s\<lparr>ltag := v\<rparr>) i = TERMOPEN s i"
  "cterm c (s\<lparr>ltag := v\<rparr>) = cterm c s"
  "show_ret c (s\<lparr>ltag := v\<rparr>) idx show = show_ret c s idx show"
  "hideshow_events c (s\<lparr>ltag := v\<rparr>) oidx save nidx show = hideshow_events c s oidx save nidx show"
  by (simp_all add: TERMOPEN_def cterm_def show_ret_def hideshow_events_def hide_events_def
      show_events_def)

lemma conf_events_PadConf:
  "e \<in> set (conf_events c m idx) \<Longrightarrow> \<exists>a b h w. e = PadConf a b h w"
  by (auto simp add: conf_events_def Let_def split: if_splits)

lemma filter_conf_events:
  "(\<And>a b h w. P (PadConf a b h w)) \<Longrightarrow> filter P (conf_events c m idx) = conf_events c m idx"
  by (auto simp add: conf_events_def Let_def)

lemma filter_out_conf_events:
  "(\<And>a b h w. \<not> P (PadConf a b h w)) \<Longrightarrow> filter P (conf_events c m idx) = []"
  by (auto simp add: conf_events_def Let_def)

lemma count_conf_events [simp]: "count_list (conf_events c m idx) (TermRedraw b) = 0"
  by (auto simp add: conf_events_def Let_def)

lemma TermRedraw_conf_events [simp]: "TermRedraw b \<notin> set (conf_events c m idx)"
  by (auto simp add: conf_events_def Let_def)

lemma hs_calls_append [simp]: "hs_calls (xs @ ys) = hs_calls xs @ hs_calls ys"
  by (simp add: hs_calls_def)

lemma hs_calls_conf [simp]: "hs_calls (conf_events c m idx) = []"
  by (simp add: hs_calls_def filter_out_conf_events)

lemma hs_calls_hide [simp]: "hs_calls (hide_events c s idx save) = [Hide idx save]"
  by (simp add: hs_calls_def hide_events_def)

lemma hs_calls_show [simp]: "hs_calls (show_events c s idx show) = [Show idx show]"
  using hs_calls_conf [of c "split s ! (idx mod NTAGS c)" idx]
  by (simp add: hs_calls_def show_events_def)

lemma hs_calls_hideshow [simp]:
  "hs_calls (hideshow_events c s oidx save nidx show) = [Hide oidx save, Show nidx show]"
  by (simp add: hideshow_events_def) (simp add: hs_calls_def)

lemma hideshow_events_first: "Hide oidx save \<in> set (hideshow_events c s oidx save nidx show)"
  by (simp add: hideshow_events_def hide_events_def)

lemma owner_append: "owner (xs @ ys) = (case owner ys of None \<Rightarrow> owner xs | Some x \<Rightarrow> Some x)"
  by (induction xs rule: owner.induct) (auto split: option.splits)

lemma owner_conf [simp]: "owner (conf_events c m idx) = None"
  by (simp add: conf_events_def Let_def)

lemma owner_hide [simp]: "owner (hide_events c s idx save) = None"
  by (simp add: hide_events_def)

lemma owner_show [simp]: "owner (show_events c s idx show) = Some (idx, show > 0)"
  by (simp add: show_events_def owner_append)

lemma owner_hideshow [simp]:
  "owner (hideshow_events c s oidx save nidx show) = Some (nidx, show > 0)"
  by (simp add: hideshow_events_def owner_append)

lemma t_set_cross_events:
  "cterm c s \<noteq> n \<Longrightarrow> cmdmode s = 0 \<Longrightarrow> taglock s = 0 \<Longrightarrow> ctag s \<noteq> n mod NTAGS c \<Longrightarrow>
   new_events s (t_set c n s) =
     hideshow_events c s (cterm c s) 1 n 2
     @ (if split s ! (n mod NTAGS c) \<noteq> 0
        then hideshow_events c s n 0 (aterm c n) (if show_ret c s n 2 = 2 then 1 else 2)
             @ hideshow_events c s (aterm c n) 0 n 1
        else [])"
  by (simp add: t_set_def t_hideshow_log Let_def new_events_def comp_def)

lemma t_set_seen:
  "cterm c s \<noteq> n \<Longrightarrow> cmdmode s = 0 \<Longrightarrow> taglock s = 0 \<or> ctag s = n mod NTAGS c \<Longrightarrow>
   new_calls s (t_set c n s) =
     map (\<lambda>e. (e, ctag s, (if ctag s \<noteq> n mod NTAGS c then ctag s else ltag s), tops s))
       (new_events s (t_set c n s))"
  by (auto simp add: t_set_def t_hideshow_log Let_def globals_def new_events_def comp_def)

lemma pad_confs_append [simp]: "pad_confs (xs @ ys) = pad_confs xs @ pad_confs ys"
  by (simp add: pad_confs_def)

lemma pad_confs_conf [simp]: "pad_confs (conf_events c m idx) = conf_events c m idx"
  by (simp add: pad_confs_def filter_conf_events)

lemma pad_confs_hide [simp]: "pad_confs (hide_events c s idx save) = []"
  by (simp add: pad_confs_def hide_events_def)

lemma pad_confs_show [simp]:
  "pad_confs (show_events c s idx show) = conf_events c (split s ! (idx mod NTAGS c)) idx"
  by (simp add: show_events_def pad_confs_def filter_conf_events)

lemma pad_confs_hideshow [simp]:
  "pad_confs (hideshow_events c s oidx save nidx show) =
     conf_events c (split s ! (nidx mod NTAGS c)) nidx"
  by (simp add: hideshow_events_def) (simp add: pad_confs_def)

lemma aterm_mod: "aterm c n mod NTAGS c = n mod NTAGS c"
  by (simp add: aterm_def le_mod_geq)

lemma cterm_mod: "ctag s < NTAGS c \<Longrightarrow> cterm c s mod NTAGS c = ctag s"
  by (simp add: cterm_def)

lemma split_frame [simp]:
  "TERMOPEN (s\<lparr>split := v\<rparr>) i = TERMOPEN s i"
  "cterm c (s\<lparr>split := v\<rparr>) = cterm c s"
  "globals (s\<lparr>split := v\<rparr>) = globals s"
  by (simp_all add: TERMOPEN_def cterm_def globals_def)

lemma t_split_log:
  "t_split c m s =
    (let s1 = s\<lparr>split := (split s)[ctag s := m]\<rparr>; p = cterm c s; q = aterm c p
     in log (hideshow_events c s1 p 0 q 3 @ hideshow_events c s1 q 1 p 3) s1)"
  by (simp add: t_split_def t_hideshow_log Let_def)

lemma new_events_log_split [simp]:
  "new_events s (log es (s\<lparr>split := v\<rparr>)) = es"
  by (simp add: new_events_def new_calls_def comp_def)

lemma cdiv_nonneg: "0 \<le> a \<Longrightarrow> 0 < b \<Longrightarrow> cdiv a b = a div b"
  by (cases "a = 0") (simp_all add: cdiv_def)

lemma half_cells:
  assumes "0 \<le> a" "0 < b"
  shows "0 \<le> cdiv (cdiv a 2) b * b" and "2 * (cdiv (cdiv a 2) b * b) \<le> a"
proof -
  have h: "cdiv (cdiv a 2) b = a div 2 div b"
    using assms by (simp add: cdiv_nonneg)
  show "0 \<le> cdiv (cdiv a 2) b * b"
    using assms unfolding h by (simp add: pos_imp_zdiv_nonneg_iff)
  have "a div 2 div b * b \<le> a div 2"
    using assms by (metis div_mult_mod_eq le_add_same_cancel1 pos_mod_sign)
  then show "2 * (cdiv (cdiv a 2) b * b) \<le> a"
    unfolding h by linarith
qed

lemma panes_horizontal:
  assumes "0 \<le> h1" "2 * h1 \<le> R" "8 \<le> R"
  shows "\<forall>pt. \<not> (in_rect pt (PadConf 2 2 h1 (C - 4)) \<and> in_rect pt (PadConf (h1 + 6) 2 (R - h1 - 8) (C - 4)))"
    and "\<forall>pt. in_rect pt (PadConf 2 2 h1 (C - 4)) \<or> in_rect pt (PadConf (h1 + 6) 2 (R - h1 - 8) (C - 4))
          \<longrightarrow> in_rect pt (PadConf 0 0 R C)"
    and "\<forall>pt. in_rect pt (PadConf 2 2 h1 (C - 4)) \<or> in_rect pt (PadConf (h1 + 6) 2 (R - h1 - 8) (C - 4))
          \<longleftrightarrow> in_rect pt (PadConf 2 2 (R - 4) (C - 4)) \<and> \<not> in_rect pt (PadConf (2 + h1) 2 4 (C - 4))"
  using assms by auto

lemma panes_vertical:
  assumes "0 \<le> w1" "2 * w1 \<le> C" "8 \<le> C"
  shows "\<forall>pt. \<not> (in_rect pt (PadConf 2 2 (R - 4) w1) \<and> in_rect pt (PadConf 2 (w1 + 6) (R - 4) (C - w1 - 8)))"
    and "\<forall>pt. in_rect pt (PadConf 2 2 (R - 4) w1) \<or> in_rect pt (PadConf 2 (w1 + 6) (R - 4) (C - w1 - 8))
          \<longrightarrow> in_rect pt (PadConf 0 0 R C)"
    and "\<forall>pt. in_rect pt (PadConf 2 2 (R - 4) w1) \<or> in_rect pt (PadConf 2 (w1 + 6) (R - 4) (C - w1 - 8))
          \<longleftrightarrow> in_rect pt (PadConf 2 2 (R - 4) (C - 4)) \<and> \<not> in_rect pt (PadConf 2 (2 + w1) (R - 4) 4)"
  using assms by auto

lemma chkpass_outcome:
  "chkpass c s =
    (case auth_outcome c (cstring (pass s)) of
       Failure \<Rightarrow> - 1
     | Verified \<Rightarrow> 1
     | Rejected \<Rightarrow> (if libssh2_userauth_password c (cstring (pass s)) < 0
                     then libssh2_userauth_password c (cstring (pass s)) else 0))"
  by (simp add: chkpass_def auth_outcome_def primitive_failure_def Let_def)

lemma chkpass_pos: "0 < chkpass c s \<longleftrightarrow> auth_outcome c (cstring (pass s)) = Verified"
  by (simp add: chkpass_outcome split: outcome.split)

lemma find_glyph_loop_found:
  "sorted_wrt (<) (font_glyphs f) \<Longrightarrow> h \<le> length (font_glyphs f) \<Longrightarrow> l \<le> i \<Longrightarrow> i < h \<Longrightarrow>
   font_glyphs f ! i = c \<Longrightarrow> find_glyph_loop f c l h = int i"
proof (induction f c l h rule: find_glyph_loop.induct)
  case (1 f c l h)
  define m where "m = (l + h) div 2"
  have lh: "l < h" and mh: "m < h" and lm: "l \<le> m"
    using "1.prems" by (simp_all add: m_def)
  have mono: "\<And>a b. a < b \<Longrightarrow> b < length (font_glyphs f) \<Longrightarrow> font_glyphs f ! a < font_glyphs f ! b"
    using "1.prems"(1) by (simp add: sorted_wrt_nth_less)
  show ?case
  proof (cases "font_glyphs f ! m = c")
    case True
    have "m = i"
    proof (rule ccontr)
      assume "m \<noteq> i"
      then consider "m < i" | "i < m"
        by linarith
      then show False
        using mono [of m i] mono [of i m] True "1.prems" mh by cases auto
    qed
    then show ?thesis
      using True lh by (simp add: m_def Let_def)
  next
    case False
    show ?thesis
    proof (cases "c < font_glyphs f ! m")
      case True
      have "i < m"
      proof (rule ccontr)
        assume "\<not> i < m"
        then have "m < i"
          using False "1.prems"(5) by (cases "i = m") auto
        then show False
          using mono [of m i] True "1.prems" by auto
      qed
      then have "find_glyph_loop f c l m = int i"
        using "1.IH"(1) [OF lh m_def False True] "1.prems" mh by simp
      then show ?thesis
        using False True lh by (simp add: m_def Let_def)
    next
      case nlt: False
      have "m < i"
      proof (rule ccontr)
        assume "\<not> m < i"
        then have "i < m"
          using False "1.prems"(5) by (cases "i = m") auto
        then show False
          using mono [of i m] nlt False "1.prems" mh by auto
      qed
      then have "find_glyph_loop f c (m + 1) h = int i"
        using "1.IH"(2) [OF lh m_def False nlt] "1.prems" by simp
      then show ?thesis
        using False nlt lh by (simp add: m_def Let_def)
    qed
  qed
qed

lemma find_glyph_loop_absent:
  "h \<le> length (font_glyphs f) \<Longrightarrow> c \<notin> set (font_glyphs f) \<Longrightarrow> find_glyph_loop f c l h = - 1"
proof (induction f c l h rule: find_glyph_loop.induct)
  case (1 f c l h)
  show ?case
  proof (cases "l < h")
    case True
    define m where "m = (l + h) div 2"
    have mh: "m < h"
      using True by (simp add: m_def)
    then have ne: "font_glyphs f ! m \<noteq> c"
      using "1.prems" by (metis less_le_trans nth_mem)
    show ?thesis
    proof (cases "c < font_glyphs f ! m")
      case lt: True
      have "find_glyph_loop f c l m = - 1"
        using "1.IH"(1) [OF True m_def ne lt] "1.prems" mh by simp
      then show ?thesis
        using True ne lt by (simp add: m_def Let_def)
    next
      case nlt: False
      have "find_glyph_loop f c (m + 1) h = - 1"
        using "1.IH"(2) [OF True m_def ne nlt] "1.prems" by simp
      then show ?thesis
        using True ne nlt by (simp add: m_def Let_def)
    qed
  next
    case False
    then show ?thesis
      by simp
  qed
qed






lemma length_ints_of [simp]: "length (ints_of k bs) = k"
  by (induction k arbitrary: bs) simp_all






subsection \<open>The example states, evaluated\<close>

lemma ex_NTAGS [simp]: "NTAGS ex_conf = 2"
  by (simp add: NTAGS_def ex_conf_def)

lemma ex_conf_fields [simp]:
  "TAGS ex_conf = ''ab''" "TAGS_SAVED ex_conf = ''a''" "fb_rows ex_conf = 768"
  "fb_cols ex_conf = 1024" "pad_crows ex_conf = 16" "pad_ccols ex_conf = 8"
  "pad_rows ex_conf = 48" "scr_load ex_conf i = 0" "term_colors ex_conf = 0"
  "libssh2_init ex_conf = 0" "socket_tcp6_b ex_conf = 5" "socket_connect6 ex_conf = 0"
  "libssh2_session_init ex_conf" "libssh2_session_handshake ex_conf = 0"
  "libssh2_userauth_password ex_conf pw = (if pw = ''pw'' then 0 else - 18)"
  by (simp_all add: ex_conf_def)

lemma ex_mux_fields [simp]:
  "term_fd ex_mux = [3, 0, 0, 4]" "tops ex_mux = [0, 0]" "split ex_mux = [0, 0]"
  "ctag ex_mux = 0" "ltag ex_mux = 1" "exitit ex_mux = 0" "hidden ex_mux = 0"
  "locked ex_mux = 0" "taglock ex_mux = 0" "pass ex_mux = replicate 1024 (CHR 0x00)"
  "passlen ex_mux = 0" "cmdmode ex_mux = 0" "barstat ex_mux = 1" "nolock ex_mux = 0"
  "stdin ex_mux = []" "trace ex_mux = []"
  by (simp_all add: ex_mux_def)

lemma ex_mux_b_fields [simp]:
  "term_fd ex_mux_b = [0, 0, 5, 4]" "tops ex_mux_b = [0, 1]" "split ex_mux_b = [1, 0]"
  "ctag ex_mux_b = 1" "ltag ex_mux_b = 0" "exitit ex_mux_b = 0" "hidden ex_mux_b = 0"
  "locked ex_mux_b = 0" "taglock ex_mux_b = 0" "pass ex_mux_b = replicate 1024 (CHR 0x00)"
  "passlen ex_mux_b = 0" "cmdmode ex_mux_b = 0" "barstat ex_mux_b = 1" "nolock ex_mux_b = 0"
  "stdin ex_mux_b = []" "trace ex_mux_b = []"
  by (simp_all add: ex_mux_b_def)

lemma ex_cterm [simp]: "cterm ex_conf ex_mux = 0"
  by (simp add: cterm_def)

lemma ex_cterm_b [simp]: "cterm ex_conf ex_mux_b = 3"
  by (simp add: cterm_def)

lemma ex_aterm [simp]: "aterm ex_conf 0 = 2" "aterm ex_conf 1 = 3" "aterm ex_conf 2 = 0" "aterm ex_conf 3 = 1"
  by (simp_all add: aterm_def)

lemma ex_TERMOPEN [simp]:
  "TERMOPEN ex_mux 0" "\<not> TERMOPEN ex_mux 1" "\<not> TERMOPEN ex_mux 2" "TERMOPEN ex_mux 3"
  "\<not> TERMOPEN ex_mux_b 0" "\<not> TERMOPEN ex_mux_b 1" "TERMOPEN ex_mux_b 2" "TERMOPEN ex_mux_b 3"
  by (simp_all add: TERMOPEN_def)

lemma ex_TERMSNAP [simp]: "TERMSNAP ex_conf 0" "\<not> TERMSNAP ex_conf 1" "TERMSNAP ex_conf 2" "\<not> TERMSNAP ex_conf 3"
  by code_simp+

lemma ex_conf_events:
  "conf_events ex_conf 0 i = [PadConf 0 0 768 1024]"
  "conf_events ex_conf 1 0 = [PadConf 2 2 384 1020]"
  "conf_events ex_conf 1 2 = [PadConf 390 2 376 1020]"
  "conf_events ex_conf 2 0 = [PadConf 2 2 764 512]"
  "conf_events ex_conf 2 2 = [PadConf 2 518 764 504]"
  by (simp_all add: conf_events_def cdiv_def BRWID_def)

lemma ex_split_confs:
  "pad_confs (new_events ex_mux (t_split ex_conf 1 ex_mux)) =
     [PadConf 390 2 376 1020, PadConf 2 2 384 1020]"
  by (simp add: t_split_log Let_def ex_conf_events)

lemma ex_typed_fields [simp]:
  "nolock ex_typed = 0" "locked ex_typed = 1" "passlen ex_typed = 2"
  "pass ex_typed = CHR ''p'' # CHR ''w'' # replicate 1022 (CHR 0x00)" "stdin ex_typed = []"
  by (simp_all add: ex_typed_def)

lemma ex_typed_length: "length (pass ex_typed) = sizeof_pass"
  by (simp add: sizeof_pass_def)

lemma ex_typed_cstring: "cstring ((pass ex_typed)[passlen ex_typed := CHR 0x00]) = ''pw''"
proof -
  have "replicate (Suc 1021) (CHR 0x00) = CHR 0x00 # replicate 1021 (CHR 0x00)"
    by (rule replicate_Suc)
  then have "replicate 1022 (CHR 0x00) = CHR 0x00 # replicate 1021 (CHR 0x00)"
    by simp
  then have "(replicate 1022 (CHR 0x00))[0 := CHR 0x00] = CHR 0x00 # replicate 1021 (CHR 0x00)"
    by simp
  then have "(pass ex_typed)[passlen ex_typed := CHR 0x00]
      = CHR ''p'' # CHR ''w'' # CHR 0x00 # replicate 1021 (CHR 0x00)"
    by (simp add: numeral_2_eq_2)
  then show ?thesis
    by (simp add: cstring_def)
qed

lemma char_of_112: "char_of (112 :: int) = CHR ''p''"
  by code_simp

lemma ex_no_failure [simp]: "\<not> primitive_failure ex_conf"
  by (simp add: primitive_failure_def)

lemma ex_pass_upd:
  "(pass ex_typed)[2 := x] = CHR ''p'' # CHR ''w'' # x # replicate 1021 (CHR 0x00)"
proof -
  have "replicate (Suc 1021) (CHR 0x00) = CHR 0x00 # replicate 1021 (CHR 0x00)"
    by (rule replicate_Suc)
  then have "replicate 1022 (CHR 0x00) = CHR 0x00 # replicate 1021 (CHR 0x00)"
    by simp
  then show ?thesis
    by (simp add: numeral_2_eq_2)
qed

lemma ex_typed_buffer: "password_buffer (ex_typed\<lparr>stdin := x\<rparr>) = ''pw''"
  by (simp add: password_buffer_def numeral_2_eq_2)

lemma ex_key_p:
  "directkey ex_conf (ex_typed\<lparr>stdin := ''p''\<rparr>) =
     Some (ex_typed\<lparr>stdin := [], pass := (pass ex_typed)[2 := CHR ''p''], passlen := 3\<rparr>)"
  by (simp add: directkey_def readchar_def isprint_def sizeof_pass_def char_of_112)

lemma ex_key_esc:
  "directkey ex_conf (ex_typed\<lparr>stdin := [CHR 0x1B]\<rparr>) = Some (ex_typed\<lparr>stdin := []\<rparr>)"
  by (simp add: directkey_def readchar_def isprint_def)

lemma ex_key_cr:
  "directkey ex_conf (ex_typed\<lparr>stdin := [CHR 0x0D]\<rparr>) =
     Some (ex_typed\<lparr>stdin := [], pass := (pass ex_typed)[2 := CHR 0x00], locked := 0, passlen := 0\<rparr>)"
proof -
  have "cstring ((pass ex_typed)[2 := CHR 0x00]) = ''pw''"
    unfolding ex_pass_upd by (simp add: cstring_def)
  then have "chkpass ex_conf (ex_typed\<lparr>stdin := [], pass := (pass ex_typed)[2 := CHR 0x00]\<rparr>) = 1"
    by (simp add: chkpass_def)
  then show ?thesis
    by (simp add: directkey_def readchar_def)
qed

lemma ex_key_cr_fail:
  "directkey (ex_conf\<lparr>libssh2_session_handshake := - 5\<rparr>) (ex_typed\<lparr>stdin := [CHR 0x0D]\<rparr>) =
     Some (ex_typed\<lparr>stdin := [], pass := (pass ex_typed)[2 := CHR 0x00], passlen := 0\<rparr>)"
  by (simp add: directkey_def readchar_def chkpass_def)

lemma ex_font_fields [simp]:
  "font_rows ex_font = 2" "font_cols ex_font = 1" "font_n ex_font = 3"
  "font_glyphs ex_font = [65, 66, 97]" "font_data ex_font = ''AaBbCc''"
  "font_rows ex_font_empty = 16" "font_cols ex_font_empty = 8" "font_n ex_font_empty = 0"
  "font_glyphs ex_font_empty = []" "font_data ex_font_empty = []"
  by (simp_all add: ex_font_def ex_font_empty_def)




section \<open>Showing a slot\<close>

text \<open>
  Claim C1. For every slot \<open>idx\<close>, \<open>t_show\<close> with \<open>show = 2\<close> returns 2 when the
  session of the slot is open, its tag is snapshot-eligible and \<open>scr_load\<close> succeeds:
  it sets up the layout, loads the terminal visibly, loads the snapshot, calls
  \<open>term_redraw(0)\<close> and \<open>term_show\<close>, and asks for no full redraw. In every other
  case it returns 3 and behaves as \<open>t_show\<close> with \<open>show = 3\<close>, which sets up the
  layout, loads the terminal visibly, calls \<open>term_redraw(1)\<close> exactly once and calls
  \<open>term_show\<close> if the session is open: its calls are the same but for its own entry
  and for the attempt to load the snapshot, made only for an open slot of an eligible tag.
  The value returned is the mode whose redraw was made. Neither call changes anything in
  the state but the log. After \<open>t_hide\<close> with save, which takes the snapshot exactly
  for an open slot of an eligible tag, \<open>t_show\<close> behaves as it does without it.
\<close>

theorem t_show_load:
  "(TERMOPEN s idx \<and> TERMSNAP c idx \<and> scr_load c idx = 0 \<longrightarrow>
      fst (t_show c idx 2 s) = 2
      \<and> new_events s (snd (t_show c idx 2 s)) =
          Show idx 2 # new_events s (t_conf c idx s)
          @ [TermLoad idx True, ScrLoad idx, TermRedraw False, TermShow idx]
      \<and> TermRedraw True \<notin> set (new_events s (snd (t_show c idx 2 s)))
      \<and> TermRedraw False \<in> set (new_events s (snd (t_show c idx 2 s))))
   \<and> (\<not> (TERMOPEN s idx \<and> TERMSNAP c idx \<and> scr_load c idx = 0) \<longrightarrow>
      fst (t_show c idx 2 s) = 3
      \<and> new_events s (snd (t_show c idx 2 s)) =
          Show idx 2 # new_events s (t_conf c idx s)
          @ [TermLoad idx True]
          @ (if TERMOPEN s idx \<and> TERMSNAP c idx then [ScrLoad idx] else [])
          @ [TermRedraw True]
          @ (if TERMOPEN s idx then [TermShow idx] else [])
      \<and> count_list (new_events s (snd (t_show c idx 2 s))) (TermRedraw True) = 1
      \<and> filter (\<lambda>e. e \<noteq> ScrLoad idx) (tl (new_events s (snd (t_show c idx 2 s))))
          = tl (new_events s (snd (t_show c idx 3 s))))
   \<and> fst (t_show c idx 3 s) = 3
   \<and> new_events s (snd (t_show c idx 3 s)) =
       Show idx 3 # new_events s (t_conf c idx s)
       @ [TermLoad idx True, TermRedraw True]
       @ (if TERMOPEN s idx then [TermShow idx] else [])
   \<and> count_list (new_events s (snd (t_show c idx 3 s))) (TermRedraw True) = 1
   \<and> TermRedraw (fst (t_show c idx 2 s) = 3) \<in> set (new_events s (snd (t_show c idx 2 s)))
   \<and> TermRedraw (fst (t_show c idx 2 s) \<noteq> 3) \<notin> set (new_events s (snd (t_show c idx 2 s)))
   \<and> (snd (t_show c idx 2 s))\<lparr>trace := trace s\<rparr> = s
   \<and> (snd (t_show c idx 3 s))\<lparr>trace := trace s\<rparr> = s
   \<and> fst (t_show c idx 2 (t_hide c idx 1 s)) = fst (t_show c idx 2 s)
   \<and> new_events s (snd (t_show c idx 2 (t_hide c idx 1 s))) =
       Hide idx 1
       # (if TERMOPEN s idx then [TermHide idx] else [])
       @ (if TERMOPEN s idx \<and> TERMSNAP c idx then [ScrSnap idx] else [])
       @ [TermSave idx]
       @ new_events s (snd (t_show c idx 2 s))
   \<and> (split s ! (idx mod NTAGS c) = 0 \<or> split s ! (idx mod NTAGS c) = 1
        \<or> split s ! (idx mod NTAGS c) = 2 \<longrightarrow>
       (\<exists>r l h w. new_events s (t_conf c idx s) = [PadConf r l h w]))"
proof -
  define cf where "cf = conf_events c (split s ! (idx mod NTAGS c)) idx"
  have cfe: "new_events s (t_conf c idx s) = cf"
    by (simp add: t_conf_log cf_def)
  have nored: "TermRedraw b \<notin> set cf" "count_list cf (TermRedraw b) = 0" for b
    by (simp_all add: cf_def)
  have one: "split s ! (idx mod NTAGS c) = 0 \<or> split s ! (idx mod NTAGS c) = 1
        \<or> split s ! (idx mod NTAGS c) = 2 \<longrightarrow>
       (\<exists>r l h w. cf = [PadConf r l h w])"
    by (auto simp add: cf_def conf_events_def Let_def)
  have flt: "filter (\<lambda>e. e \<noteq> ScrLoad idx) cf = cf"
    by (simp add: cf_def filter_conf_events)
  have s2: "t_show c idx 2 s = (show_ret c s idx 2, log (show_events c s idx 2) s)"
    and s3: "t_show c idx 3 s = (3, log (show_events c s idx 3) s)"
    by (simp_all add: t_show_log show_ret_def)
  have e3: "show_events c s idx 3 =
      Show idx 3 # cf @ [TermLoad idx True, TermRedraw True]
      @ (if TERMOPEN s idx then [TermShow idx] else [])"
    by (simp add: show_events_def show_ret_def cf_def)
  have h: "t_show c idx 2 (t_hide c idx 1 s) =
      (show_ret c s idx 2, log (hide_events c s idx 1 @ show_events c s idx 2) s)"
    by (simp add: t_hide_log t_show_log)
  have he: "hide_events c s idx 1 =
      Hide idx 1 # (if TERMOPEN s idx then [TermHide idx] else [])
      @ (if TERMOPEN s idx \<and> TERMSNAP c idx then [ScrSnap idx] else []) @ [TermSave idx]"
    by (simp add: hide_events_def)
  show ?thesis
  proof (cases "TERMOPEN s idx \<and> TERMSNAP c idx \<and> scr_load c idx = 0")
    case True
    then have r: "show_ret c s idx 2 = 2"
      by (simp add: show_ret_def)
    have e2: "show_events c s idx 2 =
        Show idx 2 # cf @ [TermLoad idx True, ScrLoad idx, TermRedraw False, TermShow idx]"
      using True by (simp add: show_events_def r cf_def)
    show ?thesis
      unfolding s2 s3 h cfe r using True
      using one by (simp add: e2 e3 he nored)
  next
    case False
    then have r: "show_ret c s idx 2 = 3"
      by (auto simp add: show_ret_def)
    have e2: "show_events c s idx 2 =
        Show idx 2 # cf @ [TermLoad idx True]
        @ (if TERMOPEN s idx \<and> TERMSNAP c idx then [ScrLoad idx] else [])
        @ [TermRedraw True]
        @ (if TERMOPEN s idx then [TermShow idx] else [])"
      by (simp add: show_events_def r cf_def)
    show ?thesis
      unfolding s2 s3 h cfe r using False
      using one by (simp add: e2 e3 he nored flt)
  qed
qed

theorem t_show_load_witness:
  "TERMOPEN ex_mux 0 \<and> TERMSNAP ex_conf 0 \<and> scr_load ex_conf 0 = 0
   \<and> fst (t_show ex_conf 0 2 ex_mux) = 2
   \<and> new_events ex_mux (snd (t_show ex_conf 0 2 ex_mux)) =
       [Show 0 2, PadConf 0 0 768 1024, TermLoad 0 True, ScrLoad 0, TermRedraw False,
        TermShow 0]
   \<and> TermRedraw True \<notin> set (new_events ex_mux (snd (t_show ex_conf 0 2 ex_mux)))
   \<and> \<not> TERMSNAP ex_conf 3
   \<and> fst (t_show ex_conf 3 2 ex_mux) = 3
   \<and> new_events ex_mux (snd (t_show ex_conf 3 2 ex_mux)) =
       [Show 3 2, PadConf 0 0 768 1024, TermLoad 3 True, TermRedraw True, TermShow 3]
   \<and> new_events ex_mux (snd (t_show ex_conf 3 3 ex_mux)) =
       [Show 3 3, PadConf 0 0 768 1024, TermLoad 3 True, TermRedraw True, TermShow 3]
   \<and> count_list (new_events ex_mux (snd (t_show ex_conf 3 2 ex_mux))) (TermRedraw True) = 1"
proof -
  have cf: "new_events ex_mux (t_conf ex_conf 0 ex_mux) = [PadConf 0 0 768 1024]"
    "new_events ex_mux (t_conf ex_conf 3 ex_mux) = [PadConf 0 0 768 1024]"
    by (simp_all add: t_conf_log ex_conf_events)
  show ?thesis
    using t_show_load [where s = ex_mux and idx = 0 and c = ex_conf]
      t_show_load [where s = ex_mux and idx = 3 and c = ex_conf]
    unfolding cf by simp
qed

section \<open>Switching the active terminal\<close>

text \<open>
  Claim C6. \<open>t_set\<close> returns the state as it is, and so logs no hide, show or border
  call and leaves \<open>ctag\<close>, \<open>ltag\<close> and \<open>tops\<close> alone, when the target is the
  current terminal, when the command mode is on, or when the tag lock is set and the
  target lies in another tag.
\<close>

theorem t_set_noop:
  "cterm c s = n \<or> cmdmode s \<noteq> 0 \<or> (taglock s \<noteq> 0 \<and> ctag s \<noteq> n mod NTAGS c)
   \<Longrightarrow> t_set c n s = s"
  by (auto simp add: t_set_def)

theorem t_set_noop_witness:
  "cterm ex_conf ex_mux = 0 \<and> t_set ex_conf 0 ex_mux = ex_mux
   \<and> cmdmode (ex_mux\<lparr>cmdmode := 1\<rparr>) \<noteq> 0
   \<and> t_set ex_conf 3 (ex_mux\<lparr>cmdmode := 1\<rparr>) = ex_mux\<lparr>cmdmode := 1\<rparr>
   \<and> taglock (ex_mux\<lparr>taglock := 1\<rparr>) \<noteq> 0 \<and> ctag (ex_mux\<lparr>taglock := 1\<rparr>) \<noteq> 3 mod NTAGS ex_conf
   \<and> t_set ex_conf 3 (ex_mux\<lparr>taglock := 1\<rparr>) = ex_mux\<lparr>taglock := 1\<rparr>"
  using t_set_noop [of ex_conf ex_mux 0] t_set_noop [of ex_conf "ex_mux\<lparr>cmdmode := 1\<rparr>" 3]
    t_set_noop [of ex_conf "ex_mux\<lparr>taglock := 1\<rparr>" 3]
  by (simp add: cterm_def)

text \<open>
  Claim C2, as the code has it. On a switch to another tag that is not blocked, \<open>t_set\<close>
  hides the current terminal with save and shows the target with mode 2. If the tag of
  the target is split it then hides the target without save and shows its partner, with
  mode 1 if the first show returned 2 and with mode 2 (load, redraw only if that fails)
  if it returned 3, and last hides the partner and shows the target with mode 1. If the
  tag is not split, nothing follows the first show.
\<close>

theorem t_set_cross_tag:
  "cterm c s \<noteq> n \<Longrightarrow> cmdmode s = 0 \<Longrightarrow> taglock s = 0 \<Longrightarrow> ctag s \<noteq> n mod NTAGS c \<Longrightarrow>
   hs_calls (new_events s (t_set c n s)) =
     [Hide (cterm c s) 1, Show n 2]
     @ (if split s ! (n mod NTAGS c) \<noteq> 0
        then [Hide n 0, Show (aterm c n) (if fst (t_show c n 2 s) = 2 then 1 else 2),
              Hide (aterm c n) 0, Show n 1]
        else [])"
  by (simp add: t_set_def t_hideshow_log t_show_log Let_def new_events_def comp_def)

theorem t_set_cross_tag_witness:
  "cterm ex_conf ex_mux_b \<noteq> 0 \<and> cmdmode ex_mux_b = 0 \<and> taglock ex_mux_b = 0
   \<and> ctag ex_mux_b \<noteq> 0 mod NTAGS ex_conf
   \<and> hs_calls (new_events ex_mux_b (t_set ex_conf 0 ex_mux_b)) =
       [Hide 3 1, Show 0 2, Hide 0 0, Show 2 2, Hide 2 0, Show 0 1]
   \<and> cterm ex_conf ex_mux \<noteq> 3 \<and> ctag ex_mux \<noteq> 3 mod NTAGS ex_conf
   \<and> hs_calls (new_events ex_mux (t_set ex_conf 3 ex_mux)) = [Hide 0 1, Show 3 2]"
  using t_set_cross_tag [of ex_conf ex_mux_b 0] t_set_cross_tag [of ex_conf ex_mux 3]
  by (simp add: t_show_log show_ret_def)

text \<open>
  The claim C2 says that the second pane is forced to redraw when the first needed a
  full redraw. In \<open>ex_mux_b\<close> the target slot 0 holds no session, so its show returns 3;
  the partner slot 2 is then shown with mode 2, its snapshot loads, and it is drawn with
  \<open>term_redraw(0)\<close>: the only full redraw of the transition is the one of slot 0.
\<close>

theorem t_set_cross_tag_counterexample:
  "fst (t_show ex_conf 0 2 ex_mux_b) = 3
   \<and> split ex_mux_b ! (0 mod NTAGS ex_conf) \<noteq> 0
   \<and> Show (aterm ex_conf 0) 3 \<notin> set (new_events ex_mux_b (t_set ex_conf 0 ex_mux_b))
   \<and> new_events ex_mux_b (t_set ex_conf 0 ex_mux_b) =
       [Hide 3 1, TermHide 3, TermSave 3,
        Show 0 2, PadConf 2 2 384 1020, TermLoad 0 True, TermRedraw True,
        PadBorder 0xff0000 2,
        Hide 0 0, TermSave 0, PadBorder 0 2,
        Show 2 2, PadConf 390 2 376 1020, TermLoad 2 True, ScrLoad 2, TermRedraw False,
        TermShow 2, PadBorder 0xff0000 2,
        Hide 2 0, TermSave 2, PadBorder 0 2,
        Show 0 1, PadConf 2 2 384 1020, TermLoad 0 True, TermRedraw False,
        PadBorder 0xff0000 2]"
proof -
  have r: "show_ret ex_conf ex_mux_b 0 2 = 3"
    by (simp add: show_ret_def)
  have h1: "hideshow_events ex_conf ex_mux_b 3 1 0 2 =
      [Hide 3 1, TermHide 3, TermSave 3,
       Show 0 2, PadConf 2 2 384 1020, TermLoad 0 True, TermRedraw True,
       PadBorder 0xff0000 2]"
    by (simp add: hideshow_events_def hide_events_def show_events_def r ex_conf_events
        BRWID_def BRCLR_def)
  have r2: "show_ret ex_conf ex_mux_b 2 2 = 2"
    by (simp add: show_ret_def)
  have h2: "hideshow_events ex_conf ex_mux_b 0 0 2 2 =
      [Hide 0 0, TermSave 0, PadBorder 0 2,
       Show 2 2, PadConf 390 2 376 1020, TermLoad 2 True, ScrLoad 2, TermRedraw False,
       TermShow 2, PadBorder 0xff0000 2]"
    by (simp add: hideshow_events_def hide_events_def show_events_def r2 ex_conf_events
        BRWID_def BRCLR_def)
  have r3: "show_ret ex_conf ex_mux_b 0 1 = 1"
    by (simp add: show_ret_def)
  have h3: "hideshow_events ex_conf ex_mux_b 2 0 0 1 =
      [Hide 2 0, TermSave 2, PadBorder 0 2,
       Show 0 1, PadConf 2 2 384 1020, TermLoad 0 True, TermRedraw False,
       PadBorder 0xff0000 2]"
    by (simp add: hideshow_events_def hide_events_def show_events_def r3 ex_conf_events
        BRWID_def BRCLR_def)
  have ev: "new_events ex_mux_b (t_set ex_conf 0 ex_mux_b) =
      hideshow_events ex_conf ex_mux_b 3 1 0 2 @ hideshow_events ex_conf ex_mux_b 0 0 2 2
      @ hideshow_events ex_conf ex_mux_b 2 0 0 1"
    by (simp add: t_set_cross_events r)
  show ?thesis
    unfolding ev h1 h2 h3 by (simp add: t_show_log r)
qed

text \<open>
  Claim C9, as the code has it. On every switch that is not a no-op, each call of the
  transition sees the values of \<open>ctag\<close> and \<open>tops\<close> from before the call of \<open>t_set\<close>,
  which are updated after the transition; \<open>ltag\<close> is set to the old \<open>ctag\<close> before
  the transition starts when the switch crosses tags, and every call sees that new value.
\<close>

theorem t_set_order:
  "cterm c s \<noteq> n \<Longrightarrow> cmdmode s = 0 \<Longrightarrow> taglock s = 0 \<or> ctag s = n mod NTAGS c \<Longrightarrow>
   new_calls s (t_set c n s) \<noteq> []
   \<and> (\<forall>(e, g) \<in> set (new_calls s (t_set c n s)).
        g = (ctag s, (if ctag s \<noteq> n mod NTAGS c then ctag s else ltag s), tops s))
   \<and> ctag (t_set c n s) = n mod NTAGS c
   \<and> ltag (t_set c n s) = (if ctag s \<noteq> n mod NTAGS c then ctag s else ltag s)
   \<and> tops (t_set c n s) = (tops s)[n mod NTAGS c := n div NTAGS c]"
  by (auto simp add: t_set_def t_hideshow_log Let_def globals_def hideshow_events_def hide_events_def)

theorem t_set_order_witness:
  "cterm ex_conf ex_mux \<noteq> 3 \<and> cmdmode ex_mux = 0 \<and> taglock ex_mux = 0
   \<and> new_calls ex_mux (t_set ex_conf 3 ex_mux) \<noteq> []
   \<and> list_all (\<lambda>(e, g). g = (0, 0, [0, 0])) (new_calls ex_mux (t_set ex_conf 3 ex_mux))
   \<and> ctag (t_set ex_conf 3 ex_mux) = 1
   \<and> ltag (t_set ex_conf 3 ex_mux) = 0
   \<and> tops (t_set ex_conf 3 ex_mux) = [0, 1]"
  using t_set_order [of ex_conf ex_mux 3]
  by (simp add: list_all_iff)

text \<open>
  The claim C9 says that \<open>ltag\<close> too keeps its old value during the transition. In
  \<open>ex_mux\<close>, with \<open>ltag = 1\<close>, the switch to slot 3 sets \<open>ltag\<close> to 0 first: the
  calls of the transition do not see the value 1.
\<close>

theorem t_set_order_counterexample:
  "\<not> (\<forall>(e, g) \<in> set (new_calls ex_mux (t_set ex_conf 3 ex_mux)).
        g = (ctag ex_mux, ltag ex_mux, tops ex_mux))"
proof -
  have "new_events ex_mux (t_set ex_conf 3 ex_mux) = hideshow_events ex_conf ex_mux 0 1 3 2"
    using t_set_cross_events [of ex_conf ex_mux 3] by simp
  moreover have "new_calls ex_mux (t_set ex_conf 3 ex_mux) =
      map (\<lambda>e. (e, 0, 0, [0, 0])) (new_events ex_mux (t_set ex_conf 3 ex_mux))"
    using t_set_seen [of ex_conf ex_mux 3] by simp
  ultimately have mem: "(Hide 0 1, 0, 0, [0, 0]) \<in> set (new_calls ex_mux (t_set ex_conf 3 ex_mux))"
    using hideshow_events_first [of 0 1 ex_conf ex_mux 3 2] by simp
  show ?thesis
  proof
    assume "\<forall>(e, g) \<in> set (new_calls ex_mux (t_set ex_conf 3 ex_mux)).
        g = (ctag ex_mux, ltag ex_mux, tops ex_mux)"
    with mem have "(0, 0, [0, 0]) = (ctag ex_mux, ltag ex_mux, tops ex_mux)"
      by blast
    then show False
      by simp
  qed
qed

section \<open>Peeping at a terminal\<close>

text \<open>
  Claim C8. For a slot other than the current one, \<open>peepterm\<close> hides the current
  terminal without save and shows the slot with mode 1 exactly when the display is not
  hidden, the slot lies in the current tag and that tag is split, and with mode 0
  otherwise; \<open>peepback\<close> then hides the slot and shows the terminal that was current
  before, which owns the render context again, and the round trip changes nothing in the
  state but the log. For the current slot both functions return the state as it is.
\<close>

theorem peep_roundtrip:
  "(termid \<noteq> cterm c s \<longrightarrow>
      hs_calls (new_events s (peepterm c termid s)) =
        [Hide (cterm c s) 0,
         Show termid (if hidden s = 0 \<and> ctag s = termid mod NTAGS c \<and> split s ! ctag s \<noteq> 0
                      then 1 else 0)]
      \<and> owner (events (peepterm c termid s)) =
          Some (termid, hidden s = 0 \<and> ctag s = termid mod NTAGS c \<and> split s ! ctag s \<noteq> 0)
      \<and> hs_calls (new_events (peepterm c termid s) (peepback c termid (peepterm c termid s))) =
          [Hide termid 0, Show (cterm c s) (if hidden s = 0 then 1 else 0)]
      \<and> owner (events (peepback c termid (peepterm c termid s))) =
          Some (cterm c s, hidden s = 0)
      \<and> (peepback c termid (peepterm c termid s))\<lparr>trace := trace s\<rparr> = s)
   \<and> (termid = cterm c s \<longrightarrow> peepterm c termid s = s \<and> peepback c termid s = s)"
proof (cases "termid = cterm c s")
  case True
  then show ?thesis
    by (simp add: peepterm_def peepback_def)
next
  case False
  define v :: int where
    "v = (if hidden s = 0 \<and> ctag s = termid mod NTAGS c \<and> split s ! ctag s \<noteq> 0 then 1 else 0)"
  define w :: int where "w = (if hidden s = 0 then 1 else 0)"
  define es where "es = hideshow_events c s (cterm c s) 0 termid v"
  define es' where "es' = hideshow_events c s termid 0 (cterm c s) w"
  have p: "peepterm c termid s = log es s"
    using False by (simp add: peepterm_def t_hideshow_log es_def v_def)
  have b: "peepback c termid (log es s) = log (es @ es') s"
    using False by (simp add: peepback_def t_hideshow_log es'_def w_def)
  have "0 < v \<longleftrightarrow> hidden s = 0 \<and> ctag s = termid mod NTAGS c \<and> split s ! ctag s \<noteq> 0"
    by (auto simp add: v_def)
  moreover have "0 < w \<longleftrightarrow> hidden s = 0"
    by (simp add: w_def)
  ultimately show ?thesis
    using False unfolding p b
    by (auto simp add: owner_append es_def es'_def v_def w_def)
qed

theorem peep_roundtrip_witness:
  "2 \<noteq> cterm ex_conf ex_mux_b
   \<and> hs_calls (new_events ex_mux_b (peepterm ex_conf 2 ex_mux_b)) = [Hide 3 0, Show 2 0]
   \<and> owner (events (peepterm ex_conf 2 ex_mux_b)) = Some (2, False)
   \<and> owner (events (peepback ex_conf 2 (peepterm ex_conf 2 ex_mux_b))) = Some (3, True)
   \<and> (peepback ex_conf 2 (peepterm ex_conf 2 ex_mux_b))\<lparr>trace := trace ex_mux_b\<rparr> = ex_mux_b
   \<and> 0 = cterm ex_conf ex_mux
   \<and> peepterm ex_conf 0 ex_mux = ex_mux \<and> peepback ex_conf 0 ex_mux = ex_mux"
  using peep_roundtrip [where termid = 2 and c = ex_conf and s = ex_mux_b]
    peep_roundtrip [where termid = 0 and c = ex_conf and s = ex_mux]
  by simp

section \<open>The layout of a split tag\<close>

text \<open>
  Claim C3, as the code has it. After \<open>t_split\<close> with mode \<open>m\<close> the current tag has
  split mode \<open>m\<close>, and the regions configured during the call are those that
  \<open>t_conf\<close> computes for the partner and for the current terminal. For \<open>m = 0\<close> the
  region of the current terminal is the full display. For \<open>m = 1\<close> and \<open>m = 2\<close> the two
  regions do not overlap, lie inside the display, and together cover exactly the display
  without a frame of \<open>BRWID\<close> pixels along its edges and without a strip of twice
  \<open>BRWID\<close> pixels between the panes, which are left to the borders. The display is
  at least four border widths high and wide, and the cells have positive size.
\<close>

theorem t_split_layout:
  assumes "ctag s < NTAGS c" "ctag s < length (split s)" "tops s ! ctag s < 2"
    and "0 < pad_crows c" "0 < pad_ccols c" "4 * BRWID \<le> fb_rows c" "4 * BRWID \<le> fb_cols c"
  shows "let s' = t_split c m s; p = cterm c s'; q = aterm c p;
             h1 = cdiv (cdiv (fb_rows c) 2) (pad_crows c) * pad_crows c;
             w1 = cdiv (cdiv (fb_cols c) 2) (pad_ccols c) * pad_ccols c;
             display = PadConf 0 0 (fb_rows c) (fb_cols c);
             inner = PadConf BRWID BRWID (fb_rows c - 2 * BRWID) (fb_cols c - 2 * BRWID)
         in split s' ! ctag s' = m
            \<and> pad_confs (new_events s s') = new_events s' (t_conf c q s') @ new_events s' (t_conf c p s')
            \<and> (m = 0 \<longrightarrow> new_events s' (t_conf c p s') = [display])
            \<and> (m = 1 \<longrightarrow> (\<exists>a b. new_events s' (t_conf c p s') = [a] \<and> new_events s' (t_conf c q s') = [b]
                  \<and> (\<forall>pt. \<not> (in_rect pt a \<and> in_rect pt b))
                  \<and> (\<forall>pt. in_rect pt a \<or> in_rect pt b \<longrightarrow> in_rect pt display)
                  \<and> (\<forall>pt. in_rect pt a \<or> in_rect pt b \<longleftrightarrow>
                        in_rect pt inner
                        \<and> \<not> in_rect pt (PadConf (BRWID + h1) BRWID (2 * BRWID) (fb_cols c - 2 * BRWID)))))
            \<and> (m = 2 \<longrightarrow> (\<exists>a b. new_events s' (t_conf c p s') = [a] \<and> new_events s' (t_conf c q s') = [b]
                  \<and> (\<forall>pt. \<not> (in_rect pt a \<and> in_rect pt b))
                  \<and> (\<forall>pt. in_rect pt a \<or> in_rect pt b \<longrightarrow> in_rect pt display)
                  \<and> (\<forall>pt. in_rect pt a \<or> in_rect pt b \<longleftrightarrow>
                        in_rect pt inner
                        \<and> \<not> in_rect pt (PadConf BRWID (BRWID + w1) (fb_rows c - 2 * BRWID) (2 * BRWID)))))"
proof -
  define s1 where "s1 = s\<lparr>split := (split s)[ctag s := m]\<rparr>"
  define p where "p = cterm c s"
  define q where "q = aterm c p"
  define es where "es = hideshow_events c s1 p 0 q 3 @ hideshow_events c s1 q 1 p 3"
  define h1 where "h1 = cdiv (cdiv (fb_rows c) 2) (pad_crows c) * pad_crows c"
  define w1 where "w1 = cdiv (cdiv (fb_cols c) 2) (pad_ccols c) * pad_ccols c"
  define R where "R = fb_rows c"
  define C where "C = fb_cols c"
  have s': "t_split c m s = log es s1"
    by (simp add: t_split_log Let_def s1_def p_def q_def es_def)
  have pm: "p mod NTAGS c = ctag s"
    using assms(1) by (simp add: p_def cterm_mod)
  have qm: "q mod NTAGS c = ctag s"
    by (simp add: q_def aterm_mod pm)
  have sp: "split s1 ! ctag s = m"
    using assms(2) by (simp add: s1_def)
  have cp: "cterm c (log es s1) = p"
    by (simp add: s1_def p_def)
  have "new_events s (log es s1) = es"
    by (simp add: s1_def)
  moreover have "pad_confs es = conf_events c m q @ conf_events c m p"
    by (simp add: es_def pm qm sp)
  ultimately have confs: "pad_confs (new_events s (log es s1)) = conf_events c m q @ conf_events c m p"
    by simp
  have tq: "new_events (log es s1) (t_conf c q (log es s1)) = conf_events c m q"
    by (simp add: t_conf_log qm sp)
  have tp: "new_events (log es s1) (t_conf c p (log es s1)) = conf_events c m p"
    by (simp add: t_conf_log pm sp)
  have geo: "0 \<le> h1" "2 * h1 \<le> R" "8 \<le> R" "0 \<le> w1" "2 * w1 \<le> C" "8 \<le> C"
    using assms(4-7) half_cells [of "fb_rows c" "pad_crows c"] half_cells [of "fb_cols c" "pad_ccols c"]
    by (simp_all add: h1_def w1_def R_def C_def BRWID_def)
  have halves: "(p < NTAGS c \<and> \<not> q < NTAGS c) \<or> (\<not> p < NTAGS c \<and> q < NTAGS c)"
    using assms(1,3) by (auto simp add: p_def q_def cterm_def aterm_def less_2_cases_iff)
  have c0: "conf_events c 0 p = [PadConf 0 0 R C]"
    by (simp add: conf_events_def R_def C_def)
  have top: "\<And>i. i < NTAGS c \<Longrightarrow> conf_events c 1 i = [PadConf 2 2 h1 (C - 4)]"
    by (simp add: conf_events_def h1_def C_def BRWID_def Let_def)
  have bot: "\<And>i. \<not> i < NTAGS c \<Longrightarrow> conf_events c 1 i = [PadConf (h1 + 6) 2 (R - h1 - 8) (C - 4)]"
    by (simp add: conf_events_def h1_def C_def R_def BRWID_def Let_def)
  have left: "\<And>i. i < NTAGS c \<Longrightarrow> conf_events c 2 i = [PadConf 2 2 (R - 4) w1]"
    by (simp add: conf_events_def w1_def R_def BRWID_def Let_def)
  have right: "\<And>i. \<not> i < NTAGS c \<Longrightarrow> conf_events c 2 i = [PadConf 2 (w1 + 6) (R - 4) (C - w1 - 8)]"
    by (simp add: conf_events_def w1_def C_def R_def BRWID_def Let_def)
  note ph = panes_horizontal [OF geo(1-3), of C]
  note pv = panes_vertical [OF geo(4-6), of R]
  have m1: "\<exists>a b. conf_events c 1 p = [a] \<and> conf_events c 1 q = [b]
      \<and> (\<forall>pt. \<not> (in_rect pt a \<and> in_rect pt b))
      \<and> (\<forall>pt. in_rect pt a \<or> in_rect pt b \<longrightarrow> in_rect pt (PadConf 0 0 R C))
      \<and> (\<forall>pt. in_rect pt a \<or> in_rect pt b \<longleftrightarrow>
            in_rect pt (PadConf 2 2 (R - 4) (C - 4)) \<and> \<not> in_rect pt (PadConf (2 + h1) 2 4 (C - 4)))"
    using halves
  proof
    assume "p < NTAGS c \<and> \<not> q < NTAGS c"
    then have "conf_events c 1 p = [PadConf 2 2 h1 (C - 4)]"
      "conf_events c 1 q = [PadConf (h1 + 6) 2 (R - h1 - 8) (C - 4)]"
      by (simp_all add: top bot)
    then show ?thesis
      using ph by blast
  next
    assume "\<not> p < NTAGS c \<and> q < NTAGS c"
    then have "conf_events c 1 q = [PadConf 2 2 h1 (C - 4)]"
      "conf_events c 1 p = [PadConf (h1 + 6) 2 (R - h1 - 8) (C - 4)]"
      by (simp_all add: top bot)
    then show ?thesis
      using ph by blast
  qed
  have m2: "\<exists>a b. conf_events c 2 p = [a] \<and> conf_events c 2 q = [b]
      \<and> (\<forall>pt. \<not> (in_rect pt a \<and> in_rect pt b))
      \<and> (\<forall>pt. in_rect pt a \<or> in_rect pt b \<longrightarrow> in_rect pt (PadConf 0 0 R C))
      \<and> (\<forall>pt. in_rect pt a \<or> in_rect pt b \<longleftrightarrow>
            in_rect pt (PadConf 2 2 (R - 4) (C - 4)) \<and> \<not> in_rect pt (PadConf 2 (2 + w1) (R - 4) 4))"
    using halves
  proof
    assume "p < NTAGS c \<and> \<not> q < NTAGS c"
    then have "conf_events c 2 p = [PadConf 2 2 (R - 4) w1]"
      "conf_events c 2 q = [PadConf 2 (w1 + 6) (R - 4) (C - w1 - 8)]"
      by (simp_all add: left right)
    then show ?thesis
      using pv by blast
  next
    assume "\<not> p < NTAGS c \<and> q < NTAGS c"
    then have "conf_events c 2 q = [PadConf 2 2 (R - 4) w1]"
      "conf_events c 2 p = [PadConf 2 (w1 + 6) (R - 4) (C - w1 - 8)]"
      by (simp_all add: left right)
    then show ?thesis
      using pv by blast
  qed
  have sp': "split (log es s1) ! ctag (log es s1) = m"
    using sp by (simp add: s1_def)
  show ?thesis
    unfolding Let_def s' cp q_def [symmetric] tq tp confs sp'
    using c0 m1 m2
    by (simp add: BRWID_def h1_def w1_def R_def C_def)
qed

theorem t_split_layout_witness:
  "ctag ex_mux < NTAGS ex_conf \<and> ctag ex_mux < length (split ex_mux)
   \<and> tops ex_mux ! ctag ex_mux < 2 \<and> 0 < pad_crows ex_conf \<and> 0 < pad_ccols ex_conf
   \<and> 4 * BRWID \<le> fb_rows ex_conf \<and> 4 * BRWID \<le> fb_cols ex_conf
   \<and> split (t_split ex_conf 1 ex_mux) ! ctag (t_split ex_conf 1 ex_mux) = 1
   \<and> pad_confs (new_events ex_mux (t_split ex_conf 1 ex_mux)) =
       [PadConf 390 2 376 1020, PadConf 2 2 384 1020]"
proof -
  have h: "ctag ex_mux < NTAGS ex_conf" "ctag ex_mux < length (split ex_mux)"
    "tops ex_mux ! ctag ex_mux < 2" "0 < pad_crows ex_conf" "0 < pad_ccols ex_conf"
    "4 * BRWID \<le> fb_rows ex_conf" "4 * BRWID \<le> fb_cols ex_conf"
    by (simp_all add: BRWID_def)
  have "split (t_split ex_conf 1 ex_mux) ! ctag (t_split ex_conf 1 ex_mux) = 1"
    using t_split_layout [OF h, of 1] unfolding Let_def by blast
  then show ?thesis
    using h ex_split_confs by simp
qed

text \<open>
  The claim C3 says that the two regions together cover the full display rectangle. On
  the 1024x768 display of the example the pixel in the corner belongs to neither pane.
\<close>

theorem t_split_layout_counterexample:
  "pad_confs (new_events ex_mux (t_split ex_conf 1 ex_mux)) =
     [PadConf 390 2 376 1020, PadConf 2 2 384 1020]
   \<and> \<not> (\<forall>pt. in_rect pt (PadConf 0 0 (fb_rows ex_conf) (fb_cols ex_conf)) \<longrightarrow>
           (\<exists>r \<in> set (pad_confs (new_events ex_mux (t_split ex_conf 1 ex_mux))). in_rect pt r))"
proof -
  have "in_rect (0, 0) (PadConf 0 0 (fb_rows ex_conf) (fb_cols ex_conf))"
    by simp
  moreover have "\<not> (\<exists>r \<in> set (pad_confs (new_events ex_mux (t_split ex_conf 1 ex_mux))). in_rect (0, 0) r)"
    by (simp add: ex_split_confs)
  ultimately show ?thesis
    using ex_split_confs by blast
qed

section \<open>The keyboard while locked\<close>

text \<open>
  Claim C4, as the code has it. While locked (and locking not disabled) \<open>directkey\<close>
  returns, logs no call at all and changes nothing in the state but the keyboard stream,
  of which it takes one byte, and \<open>pass\<close>, \<open>passlen\<close> and \<open>locked\<close>. A carriage
  return runs the password check, lifts the lock if the check is positive, and sets
  \<open>passlen\<close> to zero either way. Any other byte is appended to the password if it is
  printable and \<open>passlen + 1\<close> is below the size of the buffer; a byte that is not
  printable, the end of input, and any byte beyond the bound are dropped.
\<close>

theorem directkey_locked:
  assumes "nolock s = 0" "locked s \<noteq> 0" "length (pass s) = sizeof_pass"
  shows "\<exists>s'. directkey c s = Some s'
     \<and> s'\<lparr>pass := pass s, passlen := passlen s, locked := locked s, stdin := stdin s\<rparr> = s
     \<and> stdin s' = tl (stdin s)
     \<and> (case readchar s of (ch, s0) \<Rightarrow>
          if ch = 13
          then passlen s' = 0 \<and> password_buffer s' = []
               \<and> locked s' =
                   (if 0 < chkpass c (s\<lparr>pass := (pass s)[passlen s := CHR 0x00]\<rparr>)
                    then 0 else locked s)
          else if isprint ch \<and> passlen s + 1 < sizeof_pass
          then password_buffer s' = password_buffer s @ [char_of ch]
               \<and> passlen s' = passlen s + 1 \<and> locked s' = locked s
          else pass s' = pass s \<and> passlen s' = passlen s \<and> locked s' = locked s)"
  using assms
  by (cases "stdin s")
    (auto simp add: directkey_def readchar_def Let_def password_buffer_def sizeof_pass_def
      take_Suc_conv_app_nth chkpass_def)

theorem directkey_locked_witness:
  "nolock (ex_typed\<lparr>stdin := ''p''\<rparr>) = 0 \<and> locked (ex_typed\<lparr>stdin := ''p''\<rparr>) \<noteq> 0
   \<and> length (pass (ex_typed\<lparr>stdin := ''p''\<rparr>)) = sizeof_pass
   \<and> directkey ex_conf (ex_typed\<lparr>stdin := ''p''\<rparr>) =
       Some (ex_typed\<lparr>stdin := [], pass := (pass ex_typed)[2 := CHR ''p''], passlen := 3\<rparr>)
   \<and> password_buffer (ex_typed\<lparr>stdin := [], pass := (pass ex_typed)[2 := CHR ''p''], passlen := 3\<rparr>)
       = ''pwp''"
proof -
  have h: "nolock (ex_typed\<lparr>stdin := ''p''\<rparr>) = 0" "locked (ex_typed\<lparr>stdin := ''p''\<rparr>) \<noteq> 0"
    "length (pass (ex_typed\<lparr>stdin := ''p''\<rparr>)) = sizeof_pass"
    by (simp_all add: sizeof_pass_def)
  have r: "readchar (ex_typed\<lparr>stdin := ''p''\<rparr>) = (112, ex_typed\<lparr>stdin := []\<rparr>)"
    by (simp add: readchar_def)
  have "password_buffer (ex_typed\<lparr>stdin := [], pass := (pass ex_typed)[2 := CHR ''p''], passlen := 3\<rparr>)
       = ''pwp''"
    using directkey_locked [OF h, of ex_conf] unfolding ex_key_p r ex_typed_buffer
    by (simp add: isprint_def sizeof_pass_def char_of_112)
  then show ?thesis
    using h ex_key_p by simp
qed

text \<open>
  The claim C4 says that every byte other than carriage return is appended while the
  buffer is below its bound. The escape byte 27, read with two bytes in the buffer, is
  dropped: the password is still \<open>pw\<close>.
\<close>

theorem directkey_locked_counterexample:
  "nolock (ex_typed\<lparr>stdin := [CHR 0x1B]\<rparr>) = 0 \<and> locked (ex_typed\<lparr>stdin := [CHR 0x1B]\<rparr>) \<noteq> 0
   \<and> readchar (ex_typed\<lparr>stdin := [CHR 0x1B]\<rparr>) = (27, ex_typed\<lparr>stdin := []\<rparr>)
   \<and> passlen (ex_typed\<lparr>stdin := [CHR 0x1B]\<rparr>) + 1 < sizeof_pass
   \<and> directkey ex_conf (ex_typed\<lparr>stdin := [CHR 0x1B]\<rparr>) = Some (ex_typed\<lparr>stdin := []\<rparr>)
   \<and> password_buffer (ex_typed\<lparr>stdin := []\<rparr>) = ''pw''
   \<and> password_buffer (ex_typed\<lparr>stdin := []\<rparr>)
       \<noteq> password_buffer (ex_typed\<lparr>stdin := [CHR 0x1B]\<rparr>) @ [char_of (27 :: int)]"
  by (simp add: ex_key_esc ex_typed_buffer readchar_def sizeof_pass_def)

text \<open>
  Claim C5. On a carriage return while locked, the password is cleared whatever the
  outcome, and the lock is lifted exactly when the outcome is \<open>Verified\<close>: then
  \<open>chkpass\<close> returns 1. On a rejected password \<open>chkpass\<close> returns 0 or the negative
  result of the check, after a failure of \<open>libssh2_init\<close>, the socket, the connection,
  the session or the handshake it returns -1, and in both cases \<open>locked\<close> keeps its
  value.
\<close>

theorem directkey_unlock:
  assumes "nolock s = 0" "locked s \<noteq> 0" "fst (readchar s) = 13"
  shows "\<exists>s'. directkey c s = Some s' \<and> passlen s' = 0 \<and> password_buffer s' = []
     \<and> (case auth_outcome c (cstring ((pass s)[passlen s := CHR 0x00])) of
          Verified \<Rightarrow> locked s' = 0 \<and> chkpass c (s\<lparr>pass := (pass s)[passlen s := CHR 0x00]\<rparr>) = 1
        | Rejected \<Rightarrow> locked s' = locked s
            \<and> chkpass c (s\<lparr>pass := (pass s)[passlen s := CHR 0x00]\<rparr>) \<le> 0
        | Failure \<Rightarrow> locked s' = locked s
            \<and> chkpass c (s\<lparr>pass := (pass s)[passlen s := CHR 0x00]\<rparr>) = - 1)"
  using assms
  by (cases "stdin s")
    (auto simp add: directkey_def readchar_def Let_def chkpass_pos chkpass_outcome
      password_buffer_def split: outcome.split)

theorem directkey_unlock_witness:
  "nolock (ex_typed\<lparr>stdin := [CHR 0x0D]\<rparr>) = 0 \<and> locked (ex_typed\<lparr>stdin := [CHR 0x0D]\<rparr>) \<noteq> 0
   \<and> fst (readchar (ex_typed\<lparr>stdin := [CHR 0x0D]\<rparr>)) = 13
   \<and> auth_outcome ex_conf
        (cstring ((pass (ex_typed\<lparr>stdin := [CHR 0x0D]\<rparr>))[passlen (ex_typed\<lparr>stdin := [CHR 0x0D]\<rparr>) := CHR 0x00]))
       = Verified
   \<and> directkey ex_conf (ex_typed\<lparr>stdin := [CHR 0x0D]\<rparr>) =
       Some (ex_typed\<lparr>stdin := [], pass := (pass ex_typed)[2 := CHR 0x00], locked := 0, passlen := 0\<rparr>)
   \<and> locked (ex_typed\<lparr>stdin := [], pass := (pass ex_typed)[2 := CHR 0x00], locked := 0, passlen := 0\<rparr>) = 0
   \<and> auth_outcome (ex_conf\<lparr>libssh2_session_handshake := - 5\<rparr>)
        (cstring ((pass (ex_typed\<lparr>stdin := [CHR 0x0D]\<rparr>))[passlen (ex_typed\<lparr>stdin := [CHR 0x0D]\<rparr>) := CHR 0x00]))
       = Failure
   \<and> directkey (ex_conf\<lparr>libssh2_session_handshake := - 5\<rparr>) (ex_typed\<lparr>stdin := [CHR 0x0D]\<rparr>) =
       Some (ex_typed\<lparr>stdin := [], pass := (pass ex_typed)[2 := CHR 0x00], passlen := 0\<rparr>)
   \<and> locked (ex_typed\<lparr>stdin := [], pass := (pass ex_typed)[2 := CHR 0x00], passlen := 0\<rparr>) = 1"
proof -
  have h: "nolock (ex_typed\<lparr>stdin := [CHR 0x0D]\<rparr>) = 0" "locked (ex_typed\<lparr>stdin := [CHR 0x0D]\<rparr>) \<noteq> 0"
    "fst (readchar (ex_typed\<lparr>stdin := [CHR 0x0D]\<rparr>)) = 13"
    by (simp_all add: readchar_def)
  have v: "auth_outcome ex_conf
        (cstring ((pass (ex_typed\<lparr>stdin := [CHR 0x0D]\<rparr>))[passlen (ex_typed\<lparr>stdin := [CHR 0x0D]\<rparr>) := CHR 0x00]))
       = Verified"
    using ex_typed_cstring by (simp add: auth_outcome_def)
  have f: "auth_outcome (ex_conf\<lparr>libssh2_session_handshake := - 5\<rparr>)
        (cstring ((pass (ex_typed\<lparr>stdin := [CHR 0x0D]\<rparr>))[passlen (ex_typed\<lparr>stdin := [CHR 0x0D]\<rparr>) := CHR 0x00]))
       = Failure"
    by (simp add: auth_outcome_def primitive_failure_def)
  have "locked (ex_typed\<lparr>stdin := [], pass := (pass ex_typed)[2 := CHR 0x00], locked := 0, passlen := 0\<rparr>) = 0"
    using directkey_unlock [OF h, of ex_conf] unfolding v ex_key_cr by simp
  moreover have "locked (ex_typed\<lparr>stdin := [], pass := (pass ex_typed)[2 := CHR 0x00], passlen := 0\<rparr>) = 1"
    using directkey_unlock [OF h, of "ex_conf\<lparr>libssh2_session_handshake := - 5\<rparr>"]
    unfolding f ex_key_cr_fail by simp
  ultimately show ?thesis
    using h v f ex_key_cr ex_key_cr_fail by simp
qed

section \<open>Looking up a glyph\<close>

text \<open>
  Claim C7. In a glyph store, \<open>font_bitmap\<close> called with a stored code returns 0 and
  overwrites the first \<open>rows * cols\<close> bytes of the destination with exactly the stored
  bitmap of that code; called with a code that is not stored (below the least, above the
  greatest, in between, or with no code stored at all) it returns 1 and leaves the
  destination as it is.
\<close>

theorem font_bitmap_lookup:
  assumes "glyph_store f"
  shows "(\<forall>i. i < length (font_glyphs f) \<longrightarrow>
            font_bitmap f dst (font_glyphs f ! i) =
              (0, glyph_bitmap f i @ drop (nat (font_rows f * font_cols f)) dst)
            \<and> length (glyph_bitmap f i) = nat (font_rows f * font_cols f))
         \<and> (\<forall>c. c \<notin> set (font_glyphs f) \<longrightarrow> font_bitmap f dst c = (1, dst))"
proof (intro conjI allI impI)
  fix i
  assume i: "i < length (font_glyphs f)"
  have n: "nat (font_n f) = length (font_glyphs f)" and s: "sorted_wrt (<) (font_glyphs f)"
    and r: "0 \<le> font_rows f" "0 \<le> font_cols f"
    and d: "int (length (font_data f)) = font_n f * font_rows f * font_cols f"
    using assms by (simp_all add: glyph_store_def)
  have fg: "find_glyph f (font_glyphs f ! i) = int i"
    using find_glyph_loop_found [OF s, of "length (font_glyphs f)" 0 i] i
    by (simp add: find_glyph_def n)
  have len: "0 \<le> font_rows f * font_cols f"
    using r by simp
  have off: "nat (int i * (font_rows f * font_cols f)) = i * nat (font_rows f * font_cols f)"
    using len by (simp add: nat_mult_distrib)
  show "font_bitmap f dst (font_glyphs f ! i) =
      (0, glyph_bitmap f i @ drop (nat (font_rows f * font_cols f)) dst)"
    by (simp add: font_bitmap_def fg Let_def memcpy_def glyph_bitmap_def off)
  have "int ((i + 1) * nat (font_rows f * font_cols f)) \<le> int (length (font_data f))"
  proof -
    have "int (i + 1) \<le> font_n f"
      using i n by linarith
    then have "int (i + 1) * (font_rows f * font_cols f) \<le> font_n f * (font_rows f * font_cols f)"
      using len by (rule mult_right_mono)
    then show ?thesis
      using len d by (simp add: algebra_simps)
  qed
  then have "(i + 1) * nat (font_rows f * font_cols f) \<le> length (font_data f)"
    by linarith
  then show "length (glyph_bitmap f i) = nat (font_rows f * font_cols f)"
    by (simp add: glyph_bitmap_def)
next
  fix c
  assume c: "c \<notin> set (font_glyphs f)"
  have "nat (font_n f) = length (font_glyphs f)"
    using assms by (simp add: glyph_store_def)
  then have "find_glyph f c = - 1"
    unfolding find_glyph_def using find_glyph_loop_absent [OF _ c, of "nat (font_n f)" 0]
    by linarith
  then show "font_bitmap f dst c = (1, dst)"
    by (simp add: font_bitmap_def)
qed

theorem font_bitmap_lookup_witness:
  "glyph_store ex_font
   \<and> font_bitmap ex_font ''....'' 66 = (0, ''Bb..'')
   \<and> font_bitmap ex_font ''....'' 67 = (1, ''....'')
   \<and> font_bitmap ex_font ''....'' 64 = (1, ''....'')
   \<and> font_bitmap ex_font ''....'' 98 = (1, ''....'')
   \<and> glyph_store ex_font_empty
   \<and> font_bitmap ex_font_empty ''....'' 65 = (1, ''....'')"
proof -
  have g: "glyph_store ex_font" and e: "glyph_store ex_font_empty"
    by (simp_all add: glyph_store_def)
  note l = font_bitmap_lookup [OF g, of "''....''"]
  have "1 < length (font_glyphs ex_font)"
    by simp
  with l have "font_bitmap ex_font ''....'' (font_glyphs ex_font ! 1) =
      (0, glyph_bitmap ex_font 1 @ drop (nat (font_rows ex_font * font_cols ex_font)) ''....'')"
    by blast
  then have a: "font_bitmap ex_font ''....'' 66 = (0, ''Bb..'')"
    by (simp add: glyph_bitmap_def)
  have b: "font_bitmap ex_font ''....'' 67 = (1, ''....'')"
    "font_bitmap ex_font ''....'' 64 = (1, ''....'')"
    "font_bitmap ex_font ''....'' 98 = (1, ''....'')"
    using l by simp_all
  have c: "font_bitmap ex_font_empty ''....'' 65 = (1, ''....'')"
    using font_bitmap_lookup [OF e, of "''....''"] by simp
  show ?thesis
    using g e a b c by simp
qed

section \<open>Opening a glyph resource\<close>




end
